theory Spec2Isabelle
  imports Complex_Main
begin

section \<open>Python strings\<close>

text \<open>
  A Python \<open>str\<close> is a sequence of Unicode code points: \<open>len\<close> counts code points and
  \<open>==\<close>, \<open><\<close> and \<open>in\<close> compare them. The texts of this program are Arabic, so a string is
  modelled as the list of its code points; \<open>ustr\<close> embeds an ASCII literal.
\<close>

type_synonym ustring = "nat list"

definition ustr :: "string \<Rightarrow> ustring" where
  "ustr s = map of_char s"

text \<open>\<open>needle in haystack\<close> on strings: the needle occurs as a contiguous slice.\<close>

definition startswith :: "ustring \<Rightarrow> ustring \<Rightarrow> bool" where
  "startswith s p = (take (length p) s = p)"

fun str_in :: "ustring \<Rightarrow> ustring \<Rightarrow> bool" where
  "str_in needle [] = (needle = [])"
| "str_in needle (c # cs) = (startswith (c # cs) needle \<or> str_in needle cs)"

text \<open>\<open>x > y\<close> on strings: lexicographic on code points, a proper prefix is smaller.\<close>

fun str_gt :: "ustring \<Rightarrow> ustring \<Rightarrow> bool" where
  "str_gt [] ys = False"
| "str_gt (x # xs) [] = True"
| "str_gt (x # xs) (y # ys) = (x > y \<or> (x = y \<and> str_gt xs ys))"

text \<open>
  \<open>str.strip()\<close> removes leading and trailing characters for which \<open>str.isspace\<close> holds: the
  code points of bidirectional class WS, B or S and of category Zs.
\<close>

definition isspace :: "nat \<Rightarrow> bool" where
  "isspace c = ((9 \<le> c \<and> c \<le> 13) \<or> (28 \<le> c \<and> c \<le> 32) \<or> c = 133 \<or> c = 160 \<or> c = 5760
     \<or> (8192 \<le> c \<and> c \<le> 8202) \<or> c = 8232 \<or> c = 8233 \<or> c = 8239 \<or> c = 8287 \<or> c = 12288)"

definition strip :: "ustring \<Rightarrow> ustring" where
  "strip s = rev (dropWhile isspace (rev (dropWhile isspace s)))"

text \<open>Truthiness of an optional string: \<open>None\<close> and \<open>""\<close> are false.\<close>

fun truthy :: "ustring option \<Rightarrow> bool" where
  "truthy None = False"
| "truthy (Some s) = (s \<noteq> [])"

section \<open>The standard library's \<open>difflib.get_close_matches\<close>\<close>

text \<open>
  \<open>get_close_matches(word, possibilities, n, cutoff)\<close> sets \<open>b = word\<close> once and \<open>a = x\<close> for
  each possibility \<open>x\<close>. \<open>SequenceMatcher\<close> is built with \<open>isjunk = None\<close> and
  \<open>autojunk = True\<close>: no element is junk, and if \<open>b\<close> has at least 200 elements, those
  occurring more than \<open>len(b) // 100 + 1\<close> times are dropped from the index \<open>b2j\<close>.
\<close>

definition b2j :: "ustring \<Rightarrow> nat \<Rightarrow> nat list" where
  "b2j b elt =
     (let n = length b;
          idxs = filter (\<lambda>j. b ! j = elt) [0..<n]
      in if n \<ge> 200 \<and> length idxs > n div 100 + 1 then [] else idxs)"

text \<open>
  The inner loop of \<open>find_longest_match\<close> over the positions \<open>j\<close> of \<open>a[i]\<close> in \<open>b\<close>:
  \<open>continue\<close> below \<open>blo\<close>, \<open>break\<close> from \<open>bhi\<close> on. \<open>j2len\<close> is a dictionary read with
  default 0, modelled as a function; the key \<open>j - 1\<close> of \<open>j = 0\<close> is never present.
\<close>

type_synonym match = "nat \<times> nat \<times> nat"

fun flm_inner :: "(nat \<Rightarrow> nat) \<Rightarrow> nat \<Rightarrow> nat \<Rightarrow> nat \<Rightarrow> nat list
    \<Rightarrow> (nat \<Rightarrow> nat) \<times> match \<Rightarrow> (nat \<Rightarrow> nat) \<times> match" where
  "flm_inner j2len i blo bhi [] acc = acc"
| "flm_inner j2len i blo bhi (j # js) (newj2len, besti, bestj, bestsize) =
     (if j < blo then flm_inner j2len i blo bhi js (newj2len, besti, bestj, bestsize)
      else if j \<ge> bhi then (newj2len, besti, bestj, bestsize)
      else
        let k = (if j = 0 then 0 else j2len (j - 1)) + 1
        in flm_inner j2len i blo bhi js
             (newj2len(j := k),
              if k > bestsize then (i + 1 - k, j + 1 - k, k) else (besti, bestj, bestsize)))"

definition flm_step :: "ustring \<Rightarrow> ustring \<Rightarrow> nat \<Rightarrow> nat \<Rightarrow> nat
    \<Rightarrow> (nat \<Rightarrow> nat) \<times> match \<Rightarrow> (nat \<Rightarrow> nat) \<times> match" where
  "flm_step a b blo bhi i s =
     flm_inner (fst s) i blo bhi (b2j b (a ! i)) (\<lambda>_. 0, snd s)"

definition flm_scan :: "ustring \<Rightarrow> ustring \<Rightarrow> nat \<Rightarrow> nat \<Rightarrow> nat \<Rightarrow> nat \<Rightarrow> match" where
  "flm_scan a b alo ahi blo bhi =
     snd (fold (flm_step a b blo bhi) [alo..<ahi] (\<lambda>_. 0, (alo, blo, 0)))"

text \<open>
  The two loops that extend the best block by equal elements on each end. The two further
  loops of the library extend by junk elements only, and the junk set is empty here.
\<close>

function extend_left :: "ustring \<Rightarrow> ustring \<Rightarrow> nat \<Rightarrow> nat \<Rightarrow> match \<Rightarrow> match" where
  "extend_left a b alo blo (besti, bestj, bestsize) =
     (if besti > alo \<and> bestj > blo \<and> a ! (besti - 1) = b ! (bestj - 1)
      then extend_left a b alo blo (besti - 1, bestj - 1, bestsize + 1)
      else (besti, bestj, bestsize))"
  by pat_completeness auto
termination
  by (relation "measure (\<lambda>(a, b, alo, blo, besti, bestj, bestsize). besti)") auto

function extend_right :: "ustring \<Rightarrow> ustring \<Rightarrow> nat \<Rightarrow> nat \<Rightarrow> match \<Rightarrow> match" where
  "extend_right a b ahi bhi (besti, bestj, bestsize) =
     (if besti + bestsize < ahi \<and> bestj + bestsize < bhi
         \<and> a ! (besti + bestsize) = b ! (bestj + bestsize)
      then extend_right a b ahi bhi (besti, bestj, bestsize + 1)
      else (besti, bestj, bestsize))"
  by pat_completeness auto
termination
  by (relation "measure (\<lambda>(a, b, ahi, bhi, besti, bestj, bestsize). ahi - (besti + bestsize))")
    auto

definition find_longest_match :: "ustring \<Rightarrow> ustring \<Rightarrow> nat \<Rightarrow> nat \<Rightarrow> nat \<Rightarrow> nat \<Rightarrow> match" where
  "find_longest_match a b alo ahi blo bhi =
     extend_right a b ahi bhi (extend_left a b alo blo (flm_scan a b alo ahi blo bhi))"

text \<open>
  \<open>get_matching_blocks\<close>: the work list \<open>queue\<close> is a stack (\<open>append\<close>, \<open>pop\<close>), modelled
  with its top at the head. The library then sorts the blocks, merges adjacent ones and
  appends a block of size 0; \<open>ratio\<close> only sums the sizes, which none of these changes.
\<close>

function matching_blocks_loop ::
    "ustring \<Rightarrow> ustring \<Rightarrow> (nat \<times> nat \<times> nat \<times> nat) list \<Rightarrow> match list \<Rightarrow> match list" where
  "matching_blocks_loop a b [] blocks = blocks"
| "matching_blocks_loop a b ((alo, ahi, blo, bhi) # queue) blocks =
     (case find_longest_match a b alo ahi blo bhi of
        (i, j, k) \<Rightarrow>
          if k \<noteq> 0 then
            matching_blocks_loop a b
              ((if i + k < ahi \<and> j + k < bhi then [(i + k, ahi, j + k, bhi)] else []) @
               (if alo < i \<and> blo < j then [(alo, i, blo, j)] else []) @ queue)
              (blocks @ [(i, j, k)])
          else matching_blocks_loop a b queue blocks)"
  by pat_completeness auto

subsection \<open>The longest match lies inside the searched range\<close>

text \<open>
  Every block found lies inside \<open>a[alo:ahi]\<close>, so each pass of the work-list loop replaces a
  range by strictly smaller ones and the loop ends.
\<close>

lemma flm_inner_inv:
  assumes "\<forall>j. j2len j \<le> i - alo" "alo \<le> i" "i < ahi"
    "\<forall>j. new j \<le> i + 1 - alo" "alo \<le> bi" "bi + bs \<le> ahi"
  shows "case flm_inner j2len i blo bhi js (new, bi, bj, bs) of
           (n', bi', bj', bs') \<Rightarrow> (\<forall>j. n' j \<le> i + 1 - alo) \<and> alo \<le> bi' \<and> bi' + bs' \<le> ahi"
  using assms
proof (induction js arbitrary: new bi bj bs)
  case Nil
  then show ?case by simp
next
  case (Cons j js)
  show ?case
  proof (cases "j < blo")
    case True
    then show ?thesis using Cons.IH[of new bi bs bj] Cons.prems by simp
  next
    case nlt: False
    show ?thesis
    proof (cases "j \<ge> bhi")
      case True
      then show ?thesis using nlt Cons.prems by simp
    next
      case False
      define k where "k = (if j = 0 then 0 else j2len (j - 1)) + 1"
      have kb: "k \<le> i + 1 - alo"
      proof (cases "j = 0")
        case True then show ?thesis using Cons.prems(2) by (simp add: k_def)
      next
        case False
        have "j2len (j - 1) \<le> i - alo" using Cons.prems(1) by blast
        then show ?thesis using False Cons.prems(2) by (simp add: k_def)
      qed
      have n': "\<forall>ja. (new(j := k)) ja \<le> i + 1 - alo" using kb Cons.prems(4) by simp
      have step: "flm_inner j2len i blo bhi (j # js) (new, bi, bj, bs) =
          flm_inner j2len i blo bhi js
            (new(j := k), if k > bs then (i + 1 - k, j + 1 - k, k) else (bi, bj, bs))"
        using nlt False by (simp add: k_def Let_def)
      show ?thesis
      proof (cases "k > bs")
        case True
        have "alo \<le> i + 1 - k" "i + 1 - k + k \<le> ahi" using kb Cons.prems(2,3) by auto
        have best: "(if k > bs then (i + 1 - k, j + 1 - k, k) else (bi, bj, bs)) = (i + 1 - k, j + 1 - k, k)"
          using True by simp
        show ?thesis unfolding step best
          by (rule Cons.IH[OF Cons.prems(1,2,3) n' \<open>alo \<le> i + 1 - k\<close> \<open>i + 1 - k + k \<le> ahi\<close>])
      next
        case F2: False
        have best: "(if k > bs then (i + 1 - k, j + 1 - k, k) else (bi, bj, bs)) = (bi, bj, bs)"
          using F2 by simp
        show ?thesis unfolding step best
          by (rule Cons.IH[OF Cons.prems(1,2,3) n' Cons.prems(5,6)])
      qed
    qed
  qed
qed

lemma flm_step_inv:
  assumes "\<forall>j. fst s j \<le> i - alo" "alo \<le> i" "i < ahi"
    "alo \<le> fst (snd s)" "fst (snd s) + snd (snd (snd s)) \<le> ahi"
  shows "(\<forall>j. fst (flm_step a b blo bhi i s) j \<le> Suc i - alo)
       \<and> alo \<le> fst (snd (flm_step a b blo bhi i s))
       \<and> fst (snd (flm_step a b blo bhi i s)) + snd (snd (snd (flm_step a b blo bhi i s))) \<le> ahi"
proof -
  obtain j2len bi bj bs where s: "s = (j2len, bi, bj, bs)" by (cases s) auto
  have "case flm_inner j2len i blo bhi (b2j b (a ! i)) (\<lambda>_. 0, bi, bj, bs) of
           (n', bi', bj', bs') \<Rightarrow> (\<forall>j. n' j \<le> i + 1 - alo) \<and> alo \<le> bi' \<and> bi' + bs' \<le> ahi"
    using assms by (intro flm_inner_inv) (auto simp: s)
  then show ?thesis by (auto simp: flm_step_def s split: prod.splits)
qed

lemma flm_fold_inv:
  assumes "alo \<le> n" "n \<le> ahi"
  shows "(\<forall>j. fst (fold (flm_step a b blo bhi) [alo..<n] (\<lambda>_. 0, (alo, blo, 0))) j \<le> n - alo)
       \<and> alo \<le> fst (snd (fold (flm_step a b blo bhi) [alo..<n] (\<lambda>_. 0, (alo, blo, 0))))
       \<and> fst (snd (fold (flm_step a b blo bhi) [alo..<n] (\<lambda>_. 0, (alo, blo, 0))))
          + snd (snd (snd (fold (flm_step a b blo bhi) [alo..<n] (\<lambda>_. 0, (alo, blo, 0))))) \<le> ahi"
  using assms
proof (induction n)
  case 0
  then show ?case by simp
next
  case (Suc n)
  show ?case
  proof (cases "alo = Suc n")
    case True
    then show ?thesis using Suc.prems by simp
  next
    case False
    then have le: "alo \<le> n" "n \<le> ahi" "n < ahi" using Suc.prems by auto
    have upt: "[alo..<Suc n] = [alo..<n] @ [n]" using le by simp
    from Suc.IH[OF le(1,2)] flm_step_inv[of "fold (flm_step a b blo bhi) [alo..<n] (\<lambda>_. 0, (alo, blo, 0))" n alo ahi a b blo bhi]
    show ?thesis using le unfolding upt fold_append by simp
  qed
qed

lemma flm_scan_bounds:
  assumes "alo \<le> ahi" "flm_scan a b alo ahi blo bhi = (i, j, k)"
  shows "alo \<le> i \<and> i + k \<le> ahi"
  using flm_fold_inv[OF assms(1) order_refl, of a b blo bhi] assms(2)
  by (simp add: flm_scan_def)

lemma flm_scan_empty: "ahi \<le> alo \<Longrightarrow> flm_scan a b alo ahi blo bhi = (alo, blo, 0)"
  by (simp add: flm_scan_def)

declare extend_left.simps [simp del] extend_right.simps [simp del]

lemma extend_left_bounds:
  "extend_left a b alo blo m = (i, j, k) \<Longrightarrow> alo \<le> fst m \<Longrightarrow>
     alo \<le> i \<and> i + k = fst m + snd (snd m)"
proof (induction a b alo blo m rule: extend_left.induct)
  case (1 a b alo blo besti bestj bestsize)
  show ?case
  proof (cases "besti > alo \<and> bestj > blo \<and> a ! (besti - 1) = b ! (bestj - 1)")
    case True
    then have "extend_left a b alo blo (besti - 1, bestj - 1, bestsize + 1) = (i, j, k)"
      using "1.prems"(1) by (subst (asm) extend_left.simps) simp
    from "1.IH"[OF True this] True show ?thesis by auto
  next
    case False
    have "extend_left a b alo blo (besti, bestj, bestsize) = (besti, bestj, bestsize)"
      by (subst extend_left.simps) (simp only: False if_False)
    then have "(besti, bestj, bestsize) = (i, j, k)"
      using "1.prems"(1) by simp
    then show ?thesis using "1.prems"(2) by auto
  qed
qed

lemma extend_right_bounds:
  "extend_right a b ahi bhi m = (i, j, k) \<Longrightarrow>
     i = fst m \<and> snd (snd m) \<le> k \<and> (fst m + snd (snd m) \<le> ahi \<longrightarrow> i + k \<le> ahi)
     \<and> (ahi \<le> fst m + snd (snd m) \<longrightarrow> k = snd (snd m))"
proof (induction a b ahi bhi m rule: extend_right.induct)
  case (1 a b ahi bhi besti bestj bestsize)
  show ?case
  proof (cases "besti + bestsize < ahi \<and> bestj + bestsize < bhi
         \<and> a ! (besti + bestsize) = b ! (bestj + bestsize)")
    case True
    then have "extend_right a b ahi bhi (besti, bestj, bestsize + 1) = (i, j, k)"
      using "1.prems"(1) by (subst (asm) extend_right.simps) simp
    from "1.IH"[OF True this] True show ?thesis by auto
  next
    case False
    have "extend_right a b ahi bhi (besti, bestj, bestsize) = (besti, bestj, bestsize)"
      by (subst extend_right.simps) (simp only: False if_False)
    then have "(besti, bestj, bestsize) = (i, j, k)"
      using "1.prems"(1) by simp
    then show ?thesis using False by auto
  qed
qed

lemma find_longest_match_bounds:
  assumes "find_longest_match a b alo ahi blo bhi = (i, j, k)" "k \<noteq> 0"
  shows "alo \<le> i \<and> i + k \<le> ahi"
proof (cases "alo \<le> ahi")
  case True
  obtain i0 j0 k0 where s: "flm_scan a b alo ahi blo bhi = (i0, j0, k0)"
    by (cases "flm_scan a b alo ahi blo bhi") auto
  obtain i1 j1 k1 where l: "extend_left a b alo blo (i0, j0, k0) = (i1, j1, k1)"
    by (cases "extend_left a b alo blo (i0, j0, k0)") auto
  have r: "extend_right a b ahi bhi (i1, j1, k1) = (i, j, k)"
    using assms(1) by (simp add: find_longest_match_def s l)
  from flm_scan_bounds[OF True s] have b0: "alo \<le> i0" "i0 + k0 \<le> ahi" by auto
  from extend_left_bounds[OF l] b0 have b1: "alo \<le> i1" "i1 + k1 \<le> ahi" by auto
  from extend_right_bounds[OF r] b1 show ?thesis by auto
next
  case False
  then have s: "flm_scan a b alo ahi blo bhi = (alo, blo, 0)" by (simp add: flm_scan_empty)
  have l: "extend_left a b alo blo (alo, blo, 0) = (alo, blo, 0)"
    by (subst extend_left.simps) simp
  have r: "extend_right a b ahi bhi (alo, blo, 0) = (i, j, k)"
    using assms(1) by (simp add: find_longest_match_def s l)
  from extend_right_bounds[OF r] False have "k = 0" by auto
  then show ?thesis using assms(2) by simp
qed

termination matching_blocks_loop
proof (relation "measure (\<lambda>(a, b, queue, blocks).
         sum_list (map (\<lambda>(alo, ahi, blo, bhi). 2 * (ahi - alo) + 1) queue))", goal_cases)
  case 1
  then show ?case by simp
next
  case (2 a b alo ahi blo bhi queue blocks i y j k)
  have flm: "find_longest_match a b alo ahi blo bhi = (i, j, k)"
    unfolding 2(1)[symmetric] 2(2) ..
  have bounds: "alo \<le> i" "i + k \<le> ahi" "0 < k"
    using find_longest_match_bounds[OF flm 2(3)] 2(3) by auto
  show ?case using bounds by (simp add: flm) arith
next
  case 3
  then show ?case by simp
qed

subsection \<open>Ratios and the best match\<close>

text \<open>
  \<open>_calculate_ratio\<close> returns the float \<open>2.0 * matches / length\<close>, or \<open>1.0\<close> if both
  sequences are empty. The model keeps the exact quotient: for sequences shorter than
  \<open>2^26\<close> elements two different quotients differ by more than the spacing of doubles in [0, 1],
  so rounding neither merges nor reorders them, and a quotient is at least the double
  \<open>0.6\<close> exactly when it is at least 3/5.
\<close>

definition calculate_ratio :: "nat \<Rightarrow> nat \<Rightarrow> rat" where
  "calculate_ratio matches len = (if len \<noteq> 0 then 2 * of_nat matches / of_nat len else 1)"

definition ratio :: "ustring \<Rightarrow> ustring \<Rightarrow> rat" where
  "ratio a b =
     calculate_ratio
       (sum_list (map (\<lambda>(i, j, k). k) (matching_blocks_loop a b [(0, length a, 0, length b)] [])))
       (length a + length b)"

text \<open>
  \<open>quick_ratio\<close>: \<open>avail\<close> starts, element by element, from the number of occurrences in
  \<open>b\<close> and is decremented below zero.
\<close>

definition quick_step :: "nat \<Rightarrow> (nat \<Rightarrow> int) \<times> nat \<Rightarrow> (nat \<Rightarrow> int) \<times> nat" where
  "quick_step elt s =
     (let numb = fst s elt
      in ((fst s)(elt := numb - 1), if numb > 0 then snd s + 1 else snd s))"

definition quick_ratio :: "ustring \<Rightarrow> ustring \<Rightarrow> rat" where
  "quick_ratio a b =
     calculate_ratio (snd (fold quick_step a (\<lambda>elt. int (count_list b elt), 0)))
       (length a + length b)"

definition real_quick_ratio :: "ustring \<Rightarrow> ustring \<Rightarrow> rat" where
  "real_quick_ratio a b = calculate_ratio (min (length a) (length b)) (length a + length b)"

text \<open>
  \<open>get_close_matches(word, possibilities, n=1, cutoff)\<close>, as both call sites use it.
  \<open>heapq.nlargest(1, result)\<close> is \<open>max\<close> on the pairs \<open>(score, x)\<close>: the first greatest pair
  in the order of tuples, scores first and then the strings.
\<close>

definition pair_gt :: "rat \<times> ustring \<Rightarrow> rat \<times> ustring \<Rightarrow> bool" where
  "pair_gt p q = (fst p > fst q \<or> (fst p = fst q \<and> str_gt (snd p) (snd q)))"

definition nlargest1 :: "(rat \<times> ustring) list \<Rightarrow> (rat \<times> ustring) list" where
  "nlargest1 result =
     (case result of
        [] \<Rightarrow> []
      | r # rs \<Rightarrow> [fold (\<lambda>item best. if pair_gt item best then item else best) rs r])"

definition close_enough :: "rat \<Rightarrow> ustring \<Rightarrow> ustring \<Rightarrow> bool" where
  "close_enough cutoff word x =
     (real_quick_ratio x word \<ge> cutoff \<and> quick_ratio x word \<ge> cutoff \<and> ratio x word \<ge> cutoff)"

definition get_close_matches :: "ustring \<Rightarrow> ustring list \<Rightarrow> rat \<Rightarrow> ustring list" where
  "get_close_matches word possibilities cutoff =
     map snd (nlargest1 (map (\<lambda>x. (ratio x word, x)) (filter (close_enough cutoff word) possibilities)))"

section \<open>The string literals of \<open>app.py\<close>\<close>

text \<open>
  The literals are Arabic; each is given by its code points, with a translation. The cross
  mark that opens the replies is U+274C (10060).
\<close>

text \<open>\<open>NOT_FOUND\<close>: the failure message of line 46 and line 142: a cross mark and
  "I could not find an answer."\<close>

definition NOT_FOUND :: ustring where
  "NOT_FOUND =
     [10060, 32, 1604, 1605, 32, 1571, 1578, 1605, 1603, 1606, 32, 1605, 1606, 32, 1575, 1604,
      1593, 1579, 1608, 1585, 32, 1593, 1604, 1609, 32, 1573, 1580, 1575, 1576, 1577, 46]"

text \<open>\<open>FAREWELL_1\<close>: "goodbye" ("with safety")\<close>

definition FAREWELL_1 :: ustring where
  "FAREWELL_1 =
     [1605, 1593, 32, 1575, 1604, 1587, 1604, 1575, 1605, 1577]"

text \<open>\<open>FAREWELL_2\<close>: "until we meet"\<close>

definition FAREWELL_2 :: ustring where
  "FAREWELL_2 =
     [1573, 1604, 1609, 32, 1575, 1604, 1604, 1602, 1575, 1569]"

text \<open>\<open>FAREWELL_3\<close>: "peace"\<close>

definition FAREWELL_3 :: ustring where
  "FAREWELL_3 =
     [1587, 1604, 1575, 1605]"

text \<open>\<open>NO_MESSAGE\<close>: the reply of line 121: "no valid message was received!"\<close>

definition NO_MESSAGE :: ustring where
  "NO_MESSAGE =
     [10060, 32, 1604, 1605, 32, 1610, 1578, 1605, 32, 1575, 1587, 1578, 1602, 1576, 1575,
      1604, 32, 1585, 1587, 1575, 1604, 1577, 32, 1589, 1575, 1604, 1581, 1577, 33]"

text \<open>\<open>UNCLEAR\<close>: the reply of line 127: "the question is unclear, try to rephrase it!"\<close>

definition UNCLEAR :: ustring where
  "UNCLEAR =
     [10060, 32, 1575, 1604, 1587, 1572, 1575, 1604, 32, 1594, 1610, 1585, 32, 1608, 1575,
      1590, 1581, 1548, 32, 1581, 1575, 1608, 1604, 32, 1573, 1593, 1575, 1583, 1577, 32, 1589,
      1610, 1575, 1594, 1578, 1607, 33]"

text \<open>\<open>OUT_OF_SCOPE\<close>: the reply of line 144: "this question is outside my speciality, I am here to help
  you with the Egyptian Museum only."\<close>

definition OUT_OF_SCOPE :: ustring where
  "OUT_OF_SCOPE =
     [10060, 32, 1607, 1584, 1575, 32, 1575, 1604, 1587, 1572, 1575, 1604, 32, 1582, 1575,
      1585, 1580, 32, 1606, 1591, 1575, 1602, 32, 1578, 1582, 1589, 1589, 1610, 1548, 32, 1571,
      1606, 1575, 32, 1607, 1606, 1575, 32, 1604, 1605, 1587, 1575, 1593, 1583, 1578, 1603, 32,
      1601, 1610, 1605, 1575, 32, 1610, 1582, 1589, 32, 1575, 1604, 1605, 1578, 1581, 1601, 32,
      1575, 1604, 1605, 1589, 1585, 1610, 32, 1601, 1602, 1591, 46]"

text \<open>\<open>SERVER_ERROR\<close>: the reply of line 153: "a system error occurred, try later."\<close>

definition SERVER_ERROR :: ustring where
  "SERVER_ERROR =
     [10060, 32, 1581, 1583, 1579, 32, 1582, 1591, 1571, 32, 1601, 1610, 32, 1575, 1604, 1606,
      1592, 1575, 1605, 1548, 32, 1581, 1575, 1608, 1604, 32, 1604, 1575, 1581, 1602, 1611,
      1575, 46]"

text \<open>\<open>GEMINI_PROMPT\<close>: the prefix of the prompt of line 92: "answer briefly about: "\<close>

definition GEMINI_PROMPT :: ustring where
  "GEMINI_PROMPT =
     [1571, 1580, 1576, 32, 1576, 1573, 1610, 1580, 1575, 1586, 32, 1581, 1608, 1604, 58, 32]"

text \<open>
  The list \<open>keywords\<close> of line 111, in order: the museum, the pharaonic, the antiquities, Tutankhamun, Ramesses, Giza, the pyramids, Queen Hatshepsut, the statue, hall, exhibition.
\<close>

definition museum_keywords :: "ustring list" where
  "museum_keywords =
    [[1575, 1604, 1605, 1578, 1581, 1601],
     [1575, 1604, 1601, 1585, 1593, 1608, 1606, 1610, 1577],
     [1575, 1604, 1570, 1579, 1575, 1585],
     [1578, 1608, 1578, 32, 1593, 1606, 1582, 32, 1570, 1605, 1608, 1606],
     [1585, 1605, 1587, 1610, 1587],
     [1575, 1604, 1580, 1610, 1586, 1577],
     [1575, 1604, 1571, 1607, 1585, 1575, 1605, 1575, 1578],
     [1575, 1604, 1605, 1604, 1603, 1577, 32, 1581, 1578, 1588, 1576, 1587, 1608, 1578],
     [1575, 1604, 1578, 1605, 1579, 1575, 1604],
     [1602, 1575, 1593, 1577],
     [1605, 1593, 1585, 1590]]"

text \<open>
  The trigger phrases of line 134, in order: explanation, detail, detailed, more information, tell me more, clarify more, more of the details, expand, tell me more, I want to know more.
\<close>

definition detail_keywords :: "ustring list" where
  "detail_keywords =
    [[1588, 1585, 1581],
     [1578, 1601, 1589, 1610, 1604],
     [1578, 1601, 1589, 1610, 1604, 1610],
     [1605, 1593, 1604, 1608, 1605, 1575, 1578, 32, 1571, 1603, 1578, 1585],
     [1602, 1604, 32, 1604, 1610, 32, 1575, 1604, 1605, 1586, 1610, 1583],
     [1608, 1590, 1581, 32, 1571, 1603, 1578, 1585],
     [1605, 1586, 1610, 1583, 32, 1605, 1606, 32, 1575, 1604, 1578, 1601, 1575, 1589, 1610,
      1604],
     ustr ''expand'',
     ustr ''tell me more'',
     [1593, 1575, 1608, 1586, 32, 1571, 1593, 1585, 1601, 32, 1571, 1603, 1578, 1585]]"

text \<open>The first sentinel of line 140, an ASCII literal.\<close>

definition I_DO_NOT_UNDERSTAND :: ustring where
  "I_DO_NOT_UNDERSTAND = ustr ''i do not understand...''"

section \<open>What the program is given\<close>

text \<open>
  Everything outside \<open>app.py\<close> is a field of the environment: the Unicode tables of the
  runtime behind \<open>str.lower\<close> and \<open>str.isdigit\<close>, the language detector, the translator,
  the three lookup services and the file system. A service is a function of its arguments;
  \<open>None\<close> stands for a call that raises. \<open>file_opens\<close> says whether
  \<open>open(QUESTIONS_FILE, "w")\<close> succeeds, \<open>file_accepts\<close> whether every write to the open
  file and its close succeed.
\<close>

datatype wikipedia_result =
    Summary ustring
  | PageError
  | DisambiguationError
  | OtherWikipediaError

record env =
  str_lower :: "ustring \<Rightarrow> ustring"
  digit_char :: "nat \<Rightarrow> bool"
  detect :: "ustring \<Rightarrow> string option"
  translate :: "string \<Rightarrow> string \<Rightarrow> ustring \<Rightarrow> ustring option"
  wikipedia_summary :: "ustring \<Rightarrow> wikipedia_result"
  generate_content :: "ustring \<Rightarrow> ustring option"
  ddgs_text :: "ustring \<Rightarrow> ustring option list option"
  file_opens :: bool
  file_accepts :: bool

text \<open>
  \<open>translate env source target text\<close> is \<open>GoogleTranslator(source, target).translate(text)\<close>;
  \<open>generate_content env prompt\<close> is the \<open>text\<close> of Gemini's response;
  \<open>ddgs_text env query\<close> is the list of results, each with its \<open>body\<close> if it has one.
\<close>

definition isdigit :: "env \<Rightarrow> ustring \<Rightarrow> bool" where
  "isdigit env s = (s \<noteq> [] \<and> list_all (digit_char env) s)"

text \<open>An intent of \<open>intents.json\<close>; a missing list is empty, as \<open>intent.get(key, [])\<close> reads it.\<close>

record intent =
  tag :: "ustring option"
  patterns :: "ustring list"
  responses :: "ustring list"
  detailed_response :: "ustring option"

text \<open>The calls that leave the process, in the order they are made.\<close>

datatype call =
    Detect ustring
  | Translate string string ustring
  | Wikipedia ustring
  | Gemini ustring
  | DuckDuckGo ustring
  | WriteFile

text \<open>
  The content of \<open>questions.json\<close>: the JSON text of a dictionary, or what a write that
  raised has left, a proper prefix of such a text (possibly empty), which does not parse.
\<close>

datatype file_content =
    Json "(ustring \<times> ustring) list"
  | Truncated

text \<open>
  The module's globals, the content of \<open>questions.json\<close> and the calls made so far. A Python
  dictionary keeps its keys unique and in insertion order: an association list.
\<close>

record state =
  questions_data :: "(ustring \<times> ustring) list"
  intents_data :: "intent list"
  last_user_tag :: "ustring option"
  questions_file :: file_content
  calls :: "call list"

datatype exn =
    BadRequest
  | LangDetectException
  | TranslationError
  | IndexError
  | WikipediaException
  | WriteError

definition called :: "call \<Rightarrow> state \<Rightarrow> state" where
  "called c st = st\<lparr>calls := calls st @ [c]\<rparr>"

text \<open>\<open>d[k] = v\<close>: an existing key keeps its place.\<close>

fun dict_set :: "(ustring \<times> ustring) list \<Rightarrow> ustring \<Rightarrow> ustring \<Rightarrow> (ustring \<times> ustring) list" where
  "dict_set [] k v = [(k, v)]"
| "dict_set ((k', v') # d) k v = (if k' = k then (k, v) # d else (k', v') # dict_set d k v)"

section \<open>The functions of \<open>app.py\<close>\<close>

definition is_valid_question :: "env \<Rightarrow> ustring \<Rightarrow> bool" where
  "is_valid_question env question = (length question > 2 \<and> \<not> isdigit env question)"

definition non_answers :: "ustring list" where
  "non_answers = [NOT_FOUND, FAREWELL_1, FAREWELL_2, FAREWELL_3]"

text \<open>
  The file is opened with the encoding UTF-8 and \<open>json.dump\<close> is called with
  \<open>ensure_ascii=False\<close>, so the characters of the strings reach the file as they are, and
  a surrogate code point (U+D800 to U+DFFF), which UTF-8 does not encode, makes the write
  raise \<open>UnicodeEncodeError\<close>.
\<close>

definition utf8_encodable :: "ustring \<Rightarrow> bool" where
  "utf8_encodable s = list_all (\<lambda>c. c < 55296 \<or> 57343 < c) s"

definition dumpable :: "(ustring \<times> ustring) list \<Rightarrow> bool" where
  "dumpable d = list_all (\<lambda>(k, v). utf8_encodable k \<and> utf8_encodable v) d"

text \<open>
  \<open>save_question\<close>: the dictionary is updated before the file is opened, so a failing write
  leaves the new pair in memory. If \<open>open\<close> raises, the file is as it was. Once \<open>open\<close>
  has succeeded the file is empty; \<open>json.dump\<close> writes the text piece by piece, and if a
  piece cannot be encoded or the device fails, the exception leaves a proper prefix of the
  text in the file. \<open>WriteError\<close> stands for the exception of lines 48 and 49, an
  \<open>OSError\<close> or a \<open>UnicodeEncodeError\<close>.
\<close>

definition save_question :: "env \<Rightarrow> ustring \<Rightarrow> ustring \<Rightarrow> state \<Rightarrow> (exn + unit) \<times> state" where
  "save_question env question answer st =
     (if is_valid_question env question \<and> answer \<notin> set non_answers then
        let st1 = called WriteFile
                    (st\<lparr>questions_data := dict_set (questions_data st) question answer\<rparr>)
        in if \<not> file_opens env then (Inl WriteError, st1)
           else if file_accepts env \<and> dumpable (questions_data st1)
           then (Inr (), st1\<lparr>questions_file := Json (questions_data st1)\<rparr>)
           else (Inl WriteError, st1\<lparr>questions_file := Truncated\<rparr>)
      else (Inr (), st))"

definition fuzzy_match_question :: "env \<Rightarrow> ustring \<Rightarrow> (ustring \<times> ustring) list \<Rightarrow> ustring option" where
  "fuzzy_match_question env question data =
     (case get_close_matches (str_lower env question) (map fst data) (6 / 10) of
        [] \<Rightarrow> None
      | m # _ \<Rightarrow> map_of data m)"

definition search_local_questions :: "env \<Rightarrow> ustring \<Rightarrow> state \<Rightarrow> ustring option" where
  "search_local_questions env query st = fuzzy_match_question env query (questions_data st)"

text \<open>
  \<open>search_intents\<close>: the loop over the intents returns at the first one with a close
  pattern; \<open>[][0]\<close> raises \<open>IndexError\<close>.
\<close>

fun search_intents :: "intent list \<Rightarrow> ustring \<Rightarrow> exn + (ustring option \<times> ustring option)" where
  "search_intents [] question = Inr (None, None)"
| "search_intents (intent # rest) question =
     (if get_close_matches question (patterns intent) (6 / 10) \<noteq> [] then
        (case responses intent of
           [] \<Rightarrow> Inl IndexError
         | r # _ \<Rightarrow> Inr (Some r, tag intent))
      else search_intents rest question)"

text \<open>
  \<open>search_wikipedia\<close> catches \<open>PageError\<close> and \<open>DisambiguationError\<close> only; the other two
  searches catch every exception.
\<close>

definition search_wikipedia :: "env \<Rightarrow> ustring \<Rightarrow> state \<Rightarrow> (exn + ustring option) \<times> state" where
  "search_wikipedia env query st =
     (let st1 = called (Wikipedia query) st
      in case wikipedia_summary env query of
           Summary summary \<Rightarrow>
             (Inr (if str_in (str_lower env query) (str_lower env summary)
                   then Some summary else None), st1)
         | PageError \<Rightarrow> (Inr None, st1)
         | DisambiguationError \<Rightarrow> (Inr None, st1)
         | OtherWikipediaError \<Rightarrow> (Inl WikipediaException, st1))"

definition search_gemini :: "env \<Rightarrow> ustring \<Rightarrow> state \<Rightarrow> ustring option \<times> state" where
  "search_gemini env query st =
     (let st1 = called (Gemini query) st
      in case generate_content env (GEMINI_PROMPT @ query) of
           None \<Rightarrow> (None, st1)
         | Some text \<Rightarrow>
             (if text \<noteq> [] \<and> str_in (str_lower env query) (str_lower env text)
              then Some text else None, st1))"

definition search_duckduckgo :: "env \<Rightarrow> ustring \<Rightarrow> state \<Rightarrow> ustring option \<times> state" where
  "search_duckduckgo env query st =
     (let st1 = called (DuckDuckGo query) st
      in case ddgs_text env query of
           None \<Rightarrow> (None, st1)
         | Some [] \<Rightarrow> (None, st1)
         | Some (result # _) \<Rightarrow> (result, st1))"

definition is_question_about_museum :: "env \<Rightarrow> ustring \<Rightarrow> bool" where
  "is_question_about_museum env question =
     list_ex (\<lambda>word. str_in word (str_lower env question)) museum_keywords"

subsection \<open>\<open>get_bot_response\<close>\<close>

text \<open>
  The request: \<open>get_json\<close> raises, or the body is not an object, or its \<open>message\<close> is not a
  string (\<open>Malformed\<close>); otherwise the \<open>message\<close> of the body, if it has one.
\<close>

datatype request = Malformed | Message "ustring option"

record response =
  status :: nat
  response_text :: ustring

text \<open>Lines 117 and 118.\<close>

definition user_message :: "request \<Rightarrow> exn + ustring" where
  "user_message req =
     (case req of
        Malformed \<Rightarrow> Inl BadRequest
      | Message None \<Rightarrow> Inr (strip [])
      | Message (Some m) \<Rightarrow> Inr (strip m))"

text \<open>Lines 123 and 124: the detected language and the message in Arabic.\<close>

definition translated_message :: "env \<Rightarrow> ustring \<Rightarrow> state \<Rightarrow> (exn + string \<times> ustring) \<times> state" where
  "translated_message env message st =
     (let st1 = called (Detect message) st
      in case detect env message of
           None \<Rightarrow> (Inl LangDetectException, st1)
         | Some detected_lang \<Rightarrow>
             if detected_lang \<noteq> ''ar'' then
               (let st2 = called (Translate ''auto'' ''ar'' message) st1
                in case translate env ''auto'' ''ar'' message of
                     None \<Rightarrow> (Inl TranslationError, st2)
                   | Some t \<Rightarrow> (Inr (detected_lang, t), st2))
             else (Inr (detected_lang, message), st1))"

text \<open>Lines 134 to 138: the loop has no \<open>break\<close>, the last intent that fits wins.\<close>

definition wants_detail :: "env \<Rightarrow> ustring \<Rightarrow> bool" where
  "wants_detail env question =
     list_ex (\<lambda>word. str_in word (str_lower env question)) detail_keywords"

fun detail_loop :: "intent list \<Rightarrow> ustring option \<Rightarrow> ustring option \<Rightarrow> ustring option" where
  "detail_loop [] last_tag bot_response = bot_response"
| "detail_loop (intent # rest) last_tag bot_response =
     detail_loop rest last_tag
       (if tag intent = last_tag \<and> detailed_response intent \<noteq> None
        then detailed_response intent else bot_response)"

definition elaborate :: "env \<Rightarrow> ustring \<Rightarrow> state \<Rightarrow> ustring option \<Rightarrow> ustring option" where
  "elaborate env question st bot_response =
     (if wants_detail env question \<and> truthy (last_user_tag st)
      then detail_loop (intents_data st) (last_user_tag st) bot_response
      else bot_response)"

text \<open>
  Lines 130 to 138: the working answer. Nothing is assigned to \<open>last_user_tag\<close>; the tag
  that \<open>search_intents\<close> returns is bound to a local name and not used again.
\<close>

definition working_answer :: "env \<Rightarrow> ustring \<Rightarrow> state \<Rightarrow> exn + ustring option" where
  "working_answer env question st =
     (case search_intents (intents_data st) question of
        Inl e \<Rightarrow> Inl e
      | Inr (response, t) \<Rightarrow>
          Inr (elaborate env question st
                 (if truthy response then response
                  else search_local_questions env question st)))"

text \<open>Line 140.\<close>

definition needs_fallback :: "env \<Rightarrow> ustring option \<Rightarrow> bool" where
  "needs_fallback env bot_response =
     (case bot_response of
        None \<Rightarrow> True
      | Some r \<Rightarrow> r = [] \<or> str_lower env r \<in> set [I_DO_NOT_UNDERSTAND, NOT_FOUND])"

text \<open>Line 142: \<open>or\<close> evaluates its right operand only if the left one is false.\<close>

definition cascade :: "env \<Rightarrow> ustring \<Rightarrow> state \<Rightarrow> (exn + ustring) \<times> state" where
  "cascade env question st =
     (case search_wikipedia env question st of
        (Inl e, st1) \<Rightarrow> (Inl e, st1)
      | (Inr w, st1) \<Rightarrow>
          if truthy w then (Inr (the w), st1)
          else
            (case search_gemini env question st1 of
               (g, st2) \<Rightarrow>
                 if truthy g then (Inr (the g), st2)
                 else
                   (case search_duckduckgo env question st2 of
                      (d, st3) \<Rightarrow>
                        if truthy d then (Inr (the d), st3) else (Inr NOT_FOUND, st3))))"

text \<open>Lines 141 to 144: the working answer of the fallback step.\<close>

definition fallback_answer :: "env \<Rightarrow> ustring \<Rightarrow> state \<Rightarrow> (exn + ustring) \<times> state" where
  "fallback_answer env question st =
     (if is_question_about_museum env question then cascade env question st
      else (Inr OUT_OF_SCOPE, st))"

text \<open>Lines 140 to 146: that answer is what \<open>save_question\<close> gets and what goes on.\<close>

definition fallback :: "env \<Rightarrow> ustring \<Rightarrow> state \<Rightarrow> (exn + ustring) \<times> state" where
  "fallback env question st =
     (case fallback_answer env question st of
        (Inl e, st1) \<Rightarrow> (Inl e, st1)
      | (Inr bot_response, st1) \<Rightarrow>
          (case save_question env question bot_response st1 of
             (Inl e, st2) \<Rightarrow> (Inl e, st2)
           | (Inr _, st2) \<Rightarrow> (Inr bot_response, st2)))"

text \<open>Lines 148 and 149.\<close>

definition final_response :: "env \<Rightarrow> string \<Rightarrow> ustring \<Rightarrow> state \<Rightarrow> (exn + response) \<times> state" where
  "final_response env detected_lang bot_response st =
     (if detected_lang = ''ar'' then (Inr \<lparr>status = 200, response_text = bot_response\<rparr>, st)
      else
        (let st1 = called (Translate ''ar'' detected_lang bot_response) st
         in case translate env ''ar'' detected_lang bot_response of
              None \<Rightarrow> (Inl TranslationError, st1)
            | Some t \<Rightarrow> (Inr \<lparr>status = 200, response_text = t\<rparr>, st1)))"

text \<open>Lines 130 to 149, for a question that passed line 126.\<close>

definition answer :: "env \<Rightarrow> string \<Rightarrow> ustring \<Rightarrow> state \<Rightarrow> (exn + response) \<times> state" where
  "answer env detected_lang question st =
     (case working_answer env question st of
        Inl e \<Rightarrow> (Inl e, st)
      | Inr bot_response \<Rightarrow>
          if needs_fallback env bot_response then
            (case fallback env question st of
               (Inl e, st1) \<Rightarrow> (Inl e, st1)
             | (Inr r, st1) \<Rightarrow> final_response env detected_lang r st1)
          else final_response env detected_lang (the bot_response) st)"

text \<open>The body of the \<open>try\<close>, lines 117 to 149.\<close>

definition get_bot_response_try :: "env \<Rightarrow> request \<Rightarrow> state \<Rightarrow> (exn + response) \<times> state" where
  "get_bot_response_try env req st =
     (case user_message req of
        Inl e \<Rightarrow> (Inl e, st)
      | Inr message \<Rightarrow>
          if message = [] then (Inr \<lparr>status = 400, response_text = NO_MESSAGE\<rparr>, st)
          else
            (case translated_message env message st of
               (Inl e, st1) \<Rightarrow> (Inl e, st1)
             | (Inr (detected_lang, question), st1) \<Rightarrow>
                 if \<not> is_valid_question env question
                 then (Inr \<lparr>status = 200, response_text = UNCLEAR\<rparr>, st1)
                 else answer env detected_lang question st1))"

text \<open>Lines 151 to 153: every exception becomes the reply with status 500.\<close>

definition get_bot_response :: "env \<Rightarrow> request \<Rightarrow> state \<Rightarrow> response \<times> state" where
  "get_bot_response env req st =
     (case get_bot_response_try env req st of
        (Inl e, st1) \<Rightarrow> (\<lparr>status = 500, response_text = SERVER_ERROR\<rparr>, st1)
      | (Inr r, st1) \<Rightarrow> (r, st1))"

section \<open>Concrete inputs\<close>

text \<open>
  An environment for the examples. On ASCII and Arabic text \<open>ascii_lower\<close> is what
  \<open>str.lower\<close> does: Arabic letters have no case. The detector answers \<open>ar\<close> and every
  service fails unless an example says otherwise.
\<close>

definition ascii_lower :: "ustring \<Rightarrow> ustring" where
  "ascii_lower s = map (\<lambda>c. if 65 \<le> c \<and> c \<le> 90 then c + 32 else c) s"

definition example_env :: env where
  "example_env =
     \<lparr>str_lower = ascii_lower,
      digit_char = (\<lambda>c. (48 \<le> c \<and> c \<le> 57) \<or> (1632 \<le> c \<and> c \<le> 1641)),
      detect = (\<lambda>message. Some ''ar''),
      translate = (\<lambda>source target message. None),
      wikipedia_summary = (\<lambda>query. PageError),
      generate_content = (\<lambda>prompt. None),
      ddgs_text = (\<lambda>query. None),
      file_opens = True,
      file_accepts = True\<rparr>"

text \<open>
  An English speaker: the detector answers \<open>en\<close> and the translation into Arabic is the
  two letters of "no" (lam, alif).
\<close>

definition english_env :: env where
  "english_env =
     example_env
       \<lparr>detect := (\<lambda>message. Some ''en''),
        translate := (\<lambda>source target message. if target = ''ar'' then Some [1604, 1575] else None)\<rparr>"

text \<open>"hello", "welcome", "the museum", "the Egyptian museum", "what is the weather".\<close>

definition marhaba :: ustring where
  "marhaba = [1605, 1585, 1581, 1576, 1575]"

definition ahlan :: ustring where
  "ahlan = [1571, 1607, 1604, 1575, 32, 1576, 1603]"

definition the_museum :: ustring where
  "the_museum = [1575, 1604, 1605, 1578, 1581, 1601]"

definition the_egyptian_museum :: ustring where
  "the_egyptian_museum =
     [1575, 1604, 1605, 1578, 1581, 1601, 32, 1575, 1604, 1605, 1589, 1585, 1610]"

definition the_weather :: ustring where
  "the_weather = [1605, 1575, 32, 1607, 1608, 32, 1575, 1604, 1591, 1602, 1587]"

definition greeting :: intent where
  "greeting =
     \<lparr>tag = Some (ustr ''greeting''), patterns = [marhaba], responses = [ahlan],
      detailed_response = Some the_egyptian_museum\<rparr>"

text \<open>The same intent with no response, and one with an English pattern.\<close>

definition broken :: intent where
  "broken =
     \<lparr>tag = Some (ustr ''greeting''), patterns = [marhaba], responses = [],
      detailed_response = None\<rparr>"

definition hello :: intent where
  "hello =
     \<lparr>tag = Some (ustr ''greeting''), patterns = [ustr ''hello''], responses = [ustr ''hi''],
      detailed_response = None\<rparr>"

definition empty_state :: state where
  "empty_state =
     \<lparr>questions_data = [], intents_data = [], last_user_tag = None,
      questions_file = Json [], calls = []\<rparr>"

definition greeting_state :: state where
  "greeting_state = empty_state\<lparr>intents_data := [greeting]\<rparr>"

definition broken_state :: state where
  "broken_state = empty_state\<lparr>intents_data := [broken]\<rparr>"





definition learned_state :: state where
  "learned_state = empty_state\<lparr>questions_data := [(ustr ''hello'', ustr ''hi'')]\<rparr>"

text \<open>The encyclopedia has a summary and the file cannot be opened for writing.\<close>

definition readonly_env :: env where
  "readonly_env =
     example_env
       \<lparr>wikipedia_summary := (\<lambda>query. Summary the_egyptian_museum),
        file_opens := False\<rparr>"

text \<open>Only the generative model answers, with a text that contains the question.\<close>

definition gemini_env :: env where
  "gemini_env = example_env\<lparr>generate_content := (\<lambda>prompt. Some the_egyptian_museum)\<rparr>"

text \<open>Only the web search answers, with a snippet that does not contain the question.\<close>

definition duckduckgo_env :: env where
  "duckduckgo_env =
     example_env\<lparr>ddgs_text := (\<lambda>query. Some [Some (ustr ''Cairo weather today'')])\<rparr>"

section \<open>Properties of the stages\<close>

lemma strip_plain:
  assumes "m \<noteq> []" "\<not> isspace (hd m)" "\<not> isspace (last m)"
  shows "strip m = m"
proof -
  have "dropWhile isspace m = m"
    using assms(1,2) by (cases m) auto
  moreover have "dropWhile isspace (rev m) = rev m"
    using assms(1,3) by (cases "rev m") (auto simp: last_rev[symmetric] simp del: last_rev)
  ultimately show ?thesis by (simp add: strip_def)
qed

lemma get_close_matches_Nil: "get_close_matches word [] cutoff = []"
  by (simp add: get_close_matches_def nlargest1_def)

lemma search_intents_first:
  "search_intents intents q =
     (case find (\<lambda>intent. get_close_matches q (patterns intent) (6 / 10) \<noteq> []) intents of
        None \<Rightarrow> Inr (None, None)
      | Some intent \<Rightarrow>
          (case responses intent of
             [] \<Rightarrow> Inl IndexError
           | r # _ \<Rightarrow> Inr (Some r, tag intent)))"
  by (induction intents) auto



lemma elaborate_no_tag: "last_user_tag st = None \<Longrightarrow> elaborate env q st b = b"
  by (simp add: elaborate_def)

lemma translated_message_calls:
  "translated_message env m st = (Inr (lang, q), st1) \<Longrightarrow>
     st1 = st\<lparr>calls := calls st @ Detect m #
                    (if lang = ''ar'' then [] else [Translate ''auto'' ''ar'' m])\<rparr>"
  by (auto simp: translated_message_def called_def Let_def split: option.splits if_splits)

lemma translated_message_arabic:
  "detect env m = Some ''ar'' \<Longrightarrow>
     translated_message env m st = (Inr (''ar'', m), st\<lparr>calls := calls st @ [Detect m]\<rparr>)"
  by (simp add: translated_message_def called_def Let_def)

lemma translated_message_foreign:
  "detect env m = Some lang \<Longrightarrow> lang \<noteq> ''ar'' \<Longrightarrow> translate env ''auto'' ''ar'' m = Some q \<Longrightarrow>
     translated_message env m st =
       (Inr (lang, q), st\<lparr>calls := calls st @ [Detect m, Translate ''auto'' ''ar'' m]\<rparr>)"
  by (simp add: translated_message_def called_def Let_def)

text \<open>Every stage leaves the intents and \<open>last_user_tag\<close> as they are.\<close>

definition same_globals :: "state \<Rightarrow> state \<Rightarrow> bool" where
  "same_globals st st1 =
     (intents_data st1 = intents_data st \<and> last_user_tag st1 = last_user_tag st)"

lemma translated_message_globals:
  "translated_message env m st = (r, st1) \<Longrightarrow> same_globals st st1"
  by (auto simp: same_globals_def translated_message_def called_def Let_def
      split: option.splits if_splits)

lemma cascade_state:
  "cascade env q st = (r, st1) \<Longrightarrow> \<exists>cs. st1 = st\<lparr>calls := calls st @ cs\<rparr>"
  by (auto simp: cascade_def search_wikipedia_def search_gemini_def search_duckduckgo_def
      called_def Let_def
      split: wikipedia_result.splits option.splits list.splits if_splits)

lemma save_question_globals:
  "save_question env q a st = (r, st1) \<Longrightarrow> same_globals st st1"
  by (auto simp: same_globals_def save_question_def called_def Let_def split: if_splits)

lemma fallback_answer_state:
  "fallback_answer env q st = (r, st1) \<Longrightarrow> \<exists>cs. st1 = st\<lparr>calls := calls st @ cs\<rparr>"
proof (cases "is_question_about_museum env q")
  case True
  then show "fallback_answer env q st = (r, st1) \<Longrightarrow> ?thesis"
    by (simp add: fallback_answer_def cascade_state)
next
  case False
  assume "fallback_answer env q st = (r, st1)"
  then have "st1 = st\<lparr>calls := calls st @ []\<rparr>"
    using False by (simp add: fallback_answer_def)
  then show ?thesis by blast
qed

lemma fallback_globals:
  assumes "fallback env q st = (r, st1)"
  shows "same_globals st st1"
proof -
  obtain r0 st0 where c: "fallback_answer env q st = (r0, st0)"
    by (cases "fallback_answer env q st") auto
  then have g0: "same_globals st st0"
    by (auto simp: same_globals_def dest: fallback_answer_state)
  show ?thesis
  proof (cases r0)
    case (Inl e)
    then show ?thesis using assms c g0 by (simp add: fallback_def)
  next
    case (Inr a)
    obtain r2 st2 where s: "save_question env q a st0 = (r2, st2)"
      by (cases "save_question env q a st0") auto
    then have "st1 = st2" using assms c Inr by (auto simp: fallback_def split: sum.splits)
    then show ?thesis
      using save_question_globals[OF s] g0 by (simp add: same_globals_def)
  qed
qed

lemma final_response_globals:
  "final_response env lang r st = (res, st1) \<Longrightarrow> same_globals st st1"
  by (auto simp: same_globals_def final_response_def called_def Let_def
      split: if_splits option.splits)

lemma answer_globals:
  assumes "answer env lang q st = (res, st1)"
  shows "same_globals st st1"
proof (cases "working_answer env q st")
  case (Inl e)
  then show ?thesis using assms by (simp add: answer_def same_globals_def)
next
  case (Inr b)
  show ?thesis
  proof (cases "needs_fallback env b")
    case False
    then show ?thesis
      using assms Inr by (auto simp: answer_def dest: final_response_globals)
  next
    case True
    obtain r2 st2 where f: "fallback env q st = (r2, st2)"
      by (cases "fallback env q st") auto
    have g2: "same_globals st st2" by (rule fallback_globals[OF f])
    show ?thesis
    proof (cases r2)
      case (Inl e)
      then show ?thesis using assms Inr True f g2 by (simp add: answer_def)
    next
      case r: (Inr a)
      then have "final_response env lang a st2 = (res, st1)"
        using assms Inr True f by (simp add: answer_def)
      then show ?thesis
        using final_response_globals g2 by (fastforce simp: same_globals_def)
    qed
  qed
qed

lemma get_bot_response_try_globals:
  assumes "get_bot_response_try env req st = (res, st1)"
  shows "same_globals st st1"
proof (cases "user_message req")
  case (Inl e)
  then show ?thesis using assms by (simp add: get_bot_response_try_def same_globals_def)
next
  case (Inr m)
  show ?thesis
  proof (cases "m = []")
    case True
    then show ?thesis using assms Inr by (simp add: get_bot_response_try_def same_globals_def)
  next
    case False
    obtain r2 st2 where t: "translated_message env m st = (r2, st2)"
      by (cases "translated_message env m st") auto
    have g2: "same_globals st st2" by (rule translated_message_globals[OF t])
    show ?thesis
    proof (cases r2)
      case (Inl e)
      then show ?thesis using assms Inr False t g2 by (simp add: get_bot_response_try_def)
    next
      case r: (Inr p)
      obtain lang q where p: "p = (lang, q)" by (cases p) auto
      show ?thesis
      proof (cases "is_valid_question env q")
        case False
        then show ?thesis
          using assms Inr \<open>m \<noteq> []\<close> t r p g2 by (simp add: get_bot_response_try_def)
      next
        case True
        then have "answer env lang q st2 = (res, st1)"
          using assms Inr \<open>m \<noteq> []\<close> t r p by (simp add: get_bot_response_try_def)
        then show ?thesis
          using answer_globals g2 by (fastforce simp: same_globals_def)
      qed
    qed
  qed
qed

lemma get_bot_response_globals: "same_globals st (snd (get_bot_response env req st))"
proof -
  obtain res st1 where t: "get_bot_response_try env req st = (res, st1)"
    by (cases "get_bot_response_try env req st") auto
  then have "snd (get_bot_response env req st) = st1"
    by (simp add: get_bot_response_def split: sum.splits)
  then show ?thesis using get_bot_response_try_globals[OF t] by simp
qed

text \<open>No request changes \<open>last_user_tag\<close>: the program has no assignment to it.\<close>

lemma last_user_tag_never_assigned:
  "last_user_tag (snd (get_bot_response env req st)) = last_user_tag st"
  using get_bot_response_globals[of st env req] by (simp add: same_globals_def)

text \<open>The request from line 126 on, once lines 117 to 124 have produced a question.\<close>

lemma get_bot_response_try_question:
  assumes "user_message req = Inr m" "m \<noteq> []"
    "translated_message env m st = (Inr (lang, q), st1)"
  shows "get_bot_response_try env req st =
       (if \<not> is_valid_question env q then (Inr \<lparr>status = 200, response_text = UNCLEAR\<rparr>, st1)
        else answer env lang q st1)"
  using assms by (simp add: get_bot_response_try_def)

lemma answer_direct:
  "working_answer env q st = Inr (Some r) \<Longrightarrow> \<not> needs_fallback env (Some r) \<Longrightarrow>
     answer env ''ar'' q st = (Inr \<lparr>status = 200, response_text = r\<rparr>, st)"
  by (simp add: answer_def final_response_def)

lemma OUT_OF_SCOPE_is_saved: "OUT_OF_SCOPE \<notin> set non_answers"
  by (simp add: non_answers_def OUT_OF_SCOPE_def NOT_FOUND_def FAREWELL_1_def FAREWELL_2_def
      FAREWELL_3_def)

lemma fallback_out_of_scope:
  assumes "\<not> is_question_about_museum env q" "is_valid_question env q"
    "file_opens env" "file_accepts env"
    "dumpable (dict_set (questions_data st) q OUT_OF_SCOPE)"
  shows "fallback env q st =
     (Inr OUT_OF_SCOPE,
      st\<lparr>questions_data := dict_set (questions_data st) q OUT_OF_SCOPE,
         questions_file := Json (dict_set (questions_data st) q OUT_OF_SCOPE),
         calls := calls st @ [WriteFile]\<rparr>)"
  using assms OUT_OF_SCOPE_is_saved
  by (simp add: fallback_def fallback_answer_def save_question_def called_def Let_def)

lemma cascade_gemini:
  assumes "fst (search_wikipedia env q st) = Inr w" "\<not> truthy w"
    "fst (search_gemini env q (snd (search_wikipedia env q st))) = Some g"
  shows "cascade env q st = (Inr g, st\<lparr>calls := calls st @ [Wikipedia q, Gemini q]\<rparr>)"
proof -
  have w: "search_wikipedia env q st = (Inr w, called (Wikipedia q) st)"
    using assms(1) by (auto simp: search_wikipedia_def Let_def split: wikipedia_result.splits)
  have g: "search_gemini env q (called (Wikipedia q) st)
      = (Some g, called (Gemini q) (called (Wikipedia q) st))"
    using assms(3) unfolding w
    by (auto simp: search_gemini_def Let_def split: option.splits if_splits)
  have "g \<noteq> []"
    using assms(3) by (auto simp: search_gemini_def Let_def split: option.splits if_splits)
  then have "cascade env q st = (Inr g, called (Gemini q) (called (Wikipedia q) st))"
    using assms(2) by (simp add: cascade_def w g)
  then show ?thesis by (simp add: called_def)
qed

lemma save_question_calls:
  "save_question env q a st = (r, st1) \<Longrightarrow>
     \<exists>cs. calls st1 = calls st @ cs \<and> (\<forall>x. DuckDuckGo x \<notin> set cs)"
  by (auto simp: save_question_def called_def Let_def split: if_splits)

lemma final_response_calls:
  "final_response env lang r st = (res, st1) \<Longrightarrow>
     \<exists>cs. calls st1 = calls st @ cs \<and> (\<forall>x. DuckDuckGo x \<notin> set cs)"
  by (auto simp: final_response_def called_def Let_def split: if_splits option.splits)

text \<open>
  What a call of \<open>save_question\<close> that writes does to the file: untouched if \<open>open\<close>
  raises, the new dictionary if every write succeeds, a truncated text otherwise.
\<close>

lemma save_question_file:
  assumes "is_valid_question env q" "a \<notin> set non_answers"
  shows "questions_file (snd (save_question env q a st)) =
     (if \<not> file_opens env then questions_file st
      else if file_accepts env \<and> dumpable (dict_set (questions_data st) q a)
      then Json (dict_set (questions_data st) q a)
      else Truncated)"
  using assms by (simp add: save_question_def called_def Let_def)

lemma save_question_raises:
  "fst (save_question env q a st) \<noteq> Inr () \<longleftrightarrow>
     is_valid_question env q \<and> a \<notin> set non_answers
     \<and> \<not> (file_opens env \<and> file_accepts env \<and> dumpable (dict_set (questions_data st) q a))"
  by (auto simp: save_question_def called_def Let_def)

text \<open>An exception of \<open>save_question\<close> ends the request in the handler of line 151.\<close>

lemma save_failure:
  assumes "user_message req = Inr m" "m \<noteq> []"
    "translated_message env m st = (Inr (lang, q), st1)"
    "is_valid_question env q"
    "working_answer env q st1 = Inr b" "needs_fallback env b"
    "fallback_answer env q st1 = (Inr a, st2)"
    "save_question env q a st2 = (Inl e, st3)"
  shows "get_bot_response env req st = (\<lparr>status = 500, response_text = SERVER_ERROR\<rparr>, st3)"
proof -
  have "fallback env q st1 = (Inl e, st3)"
    using assms(7,8) by (simp add: fallback_def)
  then have "answer env lang q st1 = (Inl e, st3)"
    using assms(5,6) by (simp add: answer_def)
  then show ?thesis
    using get_bot_response_try_question[OF assms(1-3)] assms(4)
    by (simp add: get_bot_response_def)
qed

text \<open>Without an exception the request goes on to line 148 with the saved answer.\<close>

lemma save_success:
  assumes "user_message req = Inr m" "m \<noteq> []"
    "translated_message env m st = (Inr (lang, q), st1)"
    "is_valid_question env q"
    "working_answer env q st1 = Inr b" "needs_fallback env b"
    "fallback_answer env q st1 = (Inr a, st2)"
    "save_question env q a st2 = (Inr u, st3)"
  shows "get_bot_response_try env req st = final_response env lang a st3"
proof -
  have "fallback env q st1 = (Inr a, st3)"
    using assms(7,8) by (simp add: fallback_def)
  then have "answer env lang q st1 = final_response env lang a st3"
    using assms(5,6) by (simp add: answer_def)
  then show ?thesis
    using get_bot_response_try_question[OF assms(1-3)] assms(4) by simp
qed

section \<open>The examples, stage by stage\<close>

lemmas difflib_defs =
  get_close_matches_def close_enough_def nlargest1_def pair_gt_def ratio_def quick_ratio_def
  real_quick_ratio_def calculate_ratio_def quick_step_def find_longest_match_def flm_scan_def
  flm_step_def b2j_def extend_left.simps extend_right.simps Let_def

lemma marhaba_close: "get_close_matches marhaba [marhaba] (6 / 10) = [marhaba]"
  by (simp add: marhaba_def difflib_defs)

lemma hello_close:
  "get_close_matches (ustr ''hello'') [ustr ''hello''] (6 / 10) = [ustr ''hello'']"
  by (simp add: ustr_def difflib_defs)

lemma HELLO_not_close: "get_close_matches (ustr ''HELLO'') [ustr ''hello''] (6 / 10) = []"
  by (simp add: ustr_def difflib_defs)

lemma HELLO_lower: "ascii_lower (ustr ''HELLO'') = ustr ''hello''"
  by (simp add: ascii_lower_def ustr_def)

lemma hello_lower: "ascii_lower (ustr ''hello'') = ustr ''hello''"
  by (simp add: ascii_lower_def ustr_def)

lemma message_marhaba: "user_message (Message (Some marhaba)) = Inr marhaba"
  by (simp add: user_message_def strip_plain marhaba_def isspace_def)

lemma message_the_museum: "user_message (Message (Some the_museum)) = Inr the_museum"
  by (simp add: user_message_def strip_plain the_museum_def isspace_def)

lemma message_the_weather: "user_message (Message (Some the_weather)) = Inr the_weather"
  by (simp add: user_message_def strip_plain the_weather_def isspace_def)

lemma message_no: "user_message (Message (Some (ustr ''no''))) = Inr (ustr ''no'')"
  by (simp add: user_message_def strip_plain ustr_def isspace_def)

lemma message_blank: "user_message (Message (Some (ustr ''  ''))) = Inr []"
  by (simp add: user_message_def strip_def ustr_def isspace_def)

lemma valid_marhaba: "is_valid_question example_env marhaba"
  by (simp add: is_valid_question_def isdigit_def example_env_def marhaba_def)

lemma valid_the_museum: "is_valid_question example_env the_museum"
  by (simp add: is_valid_question_def isdigit_def example_env_def the_museum_def)

lemma valid_the_weather: "is_valid_question example_env the_weather"
  by (simp add: is_valid_question_def isdigit_def example_env_def the_weather_def)

lemma museum_in_domain: "is_question_about_museum example_env the_museum"
  by (simp add: is_question_about_museum_def museum_keywords_def example_env_def ascii_lower_def
      the_museum_def startswith_def)

lemma weather_out_of_domain: "\<not> is_question_about_museum example_env the_weather"
  by (simp add: is_question_about_museum_def museum_keywords_def example_env_def ascii_lower_def
      the_weather_def startswith_def)

lemma working_answer_empty_state:
  "intents_data st = [] \<Longrightarrow> questions_data st = [] \<Longrightarrow> last_user_tag st = None \<Longrightarrow>
     working_answer env q st = Inr None"
  by (simp add: working_answer_def elaborate_no_tag search_local_questions_def
      fuzzy_match_question_def get_close_matches_Nil)

lemma search_intents_greeting:
  "search_intents [greeting] marhaba = Inr (Some ahlan, Some (ustr ''greeting''))"
  using marhaba_close by (simp add: greeting_def)

lemma ahlan_is_an_answer: "\<not> needs_fallback example_env (Some ahlan)"
  by (simp add: needs_fallback_def example_env_def ascii_lower_def ahlan_def
      I_DO_NOT_UNDERSTAND_def NOT_FOUND_def ustr_def)

lemma museum_in_summary:
  "str_in (ascii_lower the_museum) (ascii_lower the_egyptian_museum)"
  by (simp add: ascii_lower_def the_museum_def the_egyptian_museum_def startswith_def)

lemma museum_not_in_snippet:
  "\<not> str_in (ascii_lower the_museum) (ascii_lower (ustr ''Cairo weather today''))"
  by (simp add: ascii_lower_def the_museum_def ustr_def startswith_def)

lemma summary_is_saved: "the_egyptian_museum \<notin> set non_answers"
  by (simp add: non_answers_def the_egyptian_museum_def NOT_FOUND_def FAREWELL_1_def
      FAREWELL_2_def FAREWELL_3_def)

lemma hello_HELLO_not_close: "get_close_matches (ustr ''hello'') [ustr ''HELLO''] (6 / 10) = []"
  by (simp add: ustr_def difflib_defs)

lemma search_intents_hello:
  "search_intents [hello] (ustr ''hello'') = Inr (Some (ustr ''hi''), Some (ustr ''greeting''))"
  using hello_close by (simp add: hello_def)

lemma search_intents_HELLO: "search_intents [hello] (ustr ''HELLO'') = Inr (None, None)"
  using HELLO_not_close by (simp add: hello_def)

lemma lookup_hello:
  "fuzzy_match_question example_env (ustr ''hello'') [(ustr ''hello'', ustr ''hi'')]
     = Some (ustr ''hi'')"
  using hello_close by (simp add: fuzzy_match_question_def example_env_def hello_lower)

lemma lookup_hello_upper_key:
  "fuzzy_match_question example_env (ustr ''hello'') [(ustr ''HELLO'', ustr ''hi'')] = None"
  using hello_HELLO_not_close by (simp add: fuzzy_match_question_def example_env_def hello_lower)









lemma weather_refusal_dumpable: "dumpable [(the_weather, OUT_OF_SCOPE)]"
  by (simp add: dumpable_def utf8_encodable_def the_weather_def OUT_OF_SCOPE_def)

lemma museum_summary_dumpable: "dumpable [(the_museum, the_egyptian_museum)]"
  by (simp add: dumpable_def utf8_encodable_def the_museum_def the_egyptian_museum_def)

lemma museum_in_domain_gemini: "is_question_about_museum gemini_env the_museum"
  using museum_in_domain
  by (simp add: is_question_about_museum_def gemini_env_def example_env_def)

lemma valid_the_museum_gemini: "is_valid_question gemini_env the_museum"
  using valid_the_museum
  by (simp add: is_valid_question_def isdigit_def gemini_env_def example_env_def)

section \<open>The claims\<close>

text \<open>
  C1. When the Intent Resolver matches an intent it returns that intent's first response
  and its tag, and \<open>last_user_tag\<close> becomes that tag. The first half holds; the second
  does not: for the question "hello" and an intent with that pattern and the tag
  \<open>greeting\<close>, the resolver returns the response and the tag, the request answers with the
  response, and \<open>last_user_tag\<close> is still \<open>None\<close> afterwards.
\<close>

theorem C1_last_user_tag_not_assigned:
  "search_intents (intents_data greeting_state) marhaba
     = Inr (Some ahlan, Some (ustr ''greeting''))
   \<and> get_bot_response example_env (Message (Some marhaba)) greeting_state
     = (\<lparr>status = 200, response_text = ahlan\<rparr>, greeting_state\<lparr>calls := [Detect marhaba]\<rparr>)
   \<and> last_user_tag (snd (get_bot_response example_env (Message (Some marhaba)) greeting_state))
     = None"
proof -
  let ?st1 = "greeting_state\<lparr>calls := calls greeting_state @ [Detect marhaba]\<rparr>"
  have "intents_data greeting_state = [greeting]"
    by (simp add: greeting_state_def)
  then have i: "search_intents (intents_data greeting_state) marhaba
      = Inr (Some ahlan, Some (ustr ''greeting''))"
    by (simp only: search_intents_greeting)
  have t: "translated_message example_env marhaba greeting_state = (Inr (''ar'', marhaba), ?st1)"
    by (rule translated_message_arabic) (simp add: example_env_def)
  have "ahlan \<noteq> []" by (simp add: ahlan_def)
  then have w: "working_answer example_env marhaba ?st1 = Inr (Some ahlan)"
    using i by (simp add: working_answer_def elaborate_no_tag greeting_state_def empty_state_def)
  have "answer example_env ''ar'' marhaba ?st1
      = (Inr \<lparr>status = 200, response_text = ahlan\<rparr>, ?st1)"
    by (rule answer_direct[OF w ahlan_is_an_answer])
  then have "get_bot_response example_env (Message (Some marhaba)) greeting_state
      = (\<lparr>status = 200, response_text = ahlan\<rparr>, ?st1)"
    using get_bot_response_try_question[OF message_marhaba _ t] valid_marhaba
    by (simp add: get_bot_response_def marhaba_def)
  then show ?thesis
    using i by (simp add: greeting_state_def empty_state_def)
qed

text \<open>
  C2. A well-formed question with no intent match and no learned match that fails the
  keyword gate gets the out-of-scope message, no provider is called, and nothing is
  persisted. The first two hold; the third does not: for the question "what is the
  weather", with no intents and an empty store, the reply is the out-of-scope message,
  the only calls are the language detection and the file write, and the refusal is
  stored under the question, in memory and in the file.
\<close>

theorem C2_refusal_is_saved:
  "get_bot_response example_env (Message (Some the_weather)) empty_state =
     (\<lparr>status = 200, response_text = OUT_OF_SCOPE\<rparr>,
      empty_state
        \<lparr>questions_data := [(the_weather, OUT_OF_SCOPE)],
         questions_file := Json [(the_weather, OUT_OF_SCOPE)],
         calls := [Detect the_weather, WriteFile]\<rparr>)"
proof -
  let ?st1 = "empty_state\<lparr>calls := calls empty_state @ [Detect the_weather]\<rparr>"
  have t: "translated_message example_env the_weather empty_state
      = (Inr (''ar'', the_weather), ?st1)"
    by (rule translated_message_arabic) (simp add: example_env_def)
  have w: "working_answer example_env the_weather ?st1 = Inr None"
    by (rule working_answer_empty_state) (simp_all add: empty_state_def)
  have f: "fallback example_env the_weather ?st1 =
     (Inr OUT_OF_SCOPE,
      ?st1\<lparr>questions_data := dict_set (questions_data ?st1) the_weather OUT_OF_SCOPE,
         questions_file := Json (dict_set (questions_data ?st1) the_weather OUT_OF_SCOPE),
         calls := calls ?st1 @ [WriteFile]\<rparr>)"
    using weather_refusal_dumpable
    by (intro fallback_out_of_scope[OF weather_out_of_domain valid_the_weather])
       (simp_all add: example_env_def empty_state_def)
  have "OUT_OF_SCOPE \<noteq> []" by (simp add: OUT_OF_SCOPE_def)
  have "answer example_env ''ar'' the_weather ?st1 =
     (Inr \<lparr>status = 200, response_text = OUT_OF_SCOPE\<rparr>,
      ?st1\<lparr>questions_data := dict_set (questions_data ?st1) the_weather OUT_OF_SCOPE,
         questions_file := Json (dict_set (questions_data ?st1) the_weather OUT_OF_SCOPE),
         calls := calls ?st1 @ [WriteFile]\<rparr>)"
    by (simp add: answer_def w needs_fallback_def f final_response_def)
  then have "get_bot_response example_env (Message (Some the_weather)) empty_state =
     (\<lparr>status = 200, response_text = OUT_OF_SCOPE\<rparr>,
      ?st1\<lparr>questions_data := dict_set (questions_data ?st1) the_weather OUT_OF_SCOPE,
         questions_file := Json (dict_set (questions_data ?st1) the_weather OUT_OF_SCOPE),
         calls := calls ?st1 @ [WriteFile]\<rparr>)"
    using get_bot_response_try_question[OF message_the_weather _ t] valid_the_weather
    by (simp add: get_bot_response_def the_weather_def)
  then show ?thesis by (simp add: empty_state_def)
qed

text \<open>
  C3. Each of the three providers accepts a candidate only if the question occurs in it,
  case-insensitively. The encyclopedia and the generative model check this; the web search
  does not: asked about "the museum", with a first snippet "Cairo weather today" that
  does not contain the question, \<open>search_duckduckgo\<close> returns the snippet and the cascade
  takes it as its result.
\<close>

theorem C3_duckduckgo_unchecked:
  "\<not> str_in (str_lower duckduckgo_env the_museum)
         (str_lower duckduckgo_env (ustr ''Cairo weather today''))
   \<and> fst (search_duckduckgo duckduckgo_env the_museum empty_state)
       = Some (ustr ''Cairo weather today'')
   \<and> fst (cascade duckduckgo_env the_museum empty_state) = Inr (ustr ''Cairo weather today'')"
proof -
  have "ustr ''Cairo weather today'' \<noteq> []" by (simp add: ustr_def)
  then show ?thesis
    using museum_not_in_snippet
    by (simp add: duckduckgo_env_def example_env_def cascade_def search_wikipedia_def
        search_gemini_def search_duckduckgo_def Let_def)
qed

text \<open>
  C4, as stated: if writing the new pair fails, the request still returns the computed
  answer. It does not: with a summary from the encyclopedia as the computed answer and
  a file that cannot be opened for writing, \<open>save_question\<close> raises and the reply is the
  server error with status 500.
\<close>

theorem C4_counterexample:
  "fst (fallback_answer readonly_env the_museum (empty_state\<lparr>calls := [Detect the_museum]\<rparr>))
     = Inr the_egyptian_museum
   \<and> fst (save_question readonly_env the_museum the_egyptian_museum
            (empty_state\<lparr>calls := [Detect the_museum, Wikipedia the_museum]\<rparr>))
     = Inl WriteError
   \<and> fst (get_bot_response readonly_env (Message (Some the_museum)) empty_state)
     = \<lparr>status = 500, response_text = SERVER_ERROR\<rparr>
   \<and> SERVER_ERROR \<noteq> the_egyptian_museum"
proof -
  let ?st1 = "empty_state\<lparr>calls := calls empty_state @ [Detect the_museum]\<rparr>"
  let ?st2 = "?st1\<lparr>calls := calls ?st1 @ [Wikipedia the_museum]\<rparr>"
  let ?st3 = "called WriteFile
     (?st2\<lparr>questions_data := dict_set (questions_data ?st2) the_museum the_egyptian_museum\<rparr>)"
  have ne: "the_museum \<noteq> []" "the_egyptian_museum \<noteq> []"
    by (simp_all add: the_museum_def the_egyptian_museum_def)
  have t: "translated_message readonly_env the_museum empty_state
      = (Inr (''ar'', the_museum), ?st1)"
    by (rule translated_message_arabic) (simp add: readonly_env_def example_env_def)
  have v: "is_valid_question readonly_env the_museum"
    using valid_the_museum
    by (simp add: is_valid_question_def isdigit_def readonly_env_def example_env_def)
  have d: "is_question_about_museum readonly_env the_museum"
    using museum_in_domain
    by (simp add: is_question_about_museum_def readonly_env_def example_env_def)
  have w: "working_answer readonly_env the_museum ?st1 = Inr None"
    by (rule working_answer_empty_state) (simp_all add: empty_state_def)
  have n: "needs_fallback readonly_env None" by (simp add: needs_fallback_def)
  have c: "fallback_answer readonly_env the_museum ?st1 = (Inr the_egyptian_museum, ?st2)"
    using museum_in_summary ne d
    by (simp add: fallback_answer_def cascade_def search_wikipedia_def readonly_env_def
        example_env_def called_def Let_def)
  have "\<not> file_opens readonly_env" by (simp add: readonly_env_def)
  then have sv: "save_question readonly_env the_museum the_egyptian_museum ?st2
      = (Inl WriteError, ?st3)"
    using v summary_is_saved by (simp add: save_question_def Let_def)
  have "get_bot_response readonly_env (Message (Some the_museum)) empty_state =
     (\<lparr>status = 500, response_text = SERVER_ERROR\<rparr>, ?st3)"
    by (rule save_failure[OF message_the_museum ne(1) t v w n c sv])
  moreover have "SERVER_ERROR \<noteq> the_egyptian_museum"
    by (simp add: SERVER_ERROR_def the_egyptian_museum_def)
  ultimately show ?thesis
    using c sv by (simp add: empty_state_def)
qed

text \<open>
  C4, amended: when a request has computed a working answer in the fallback step and
  persisting the pair fails (\<open>save_question\<close> raises), the request returns the server
  error with status 500 instead of the computed answer.
\<close>

theorem C4_write_failure_is_server_error:
  assumes "user_message req = Inr m" "m \<noteq> []"
    "translated_message env m st = (Inr (lang, q), st1)"
    "is_valid_question env q"
    "working_answer env q st1 = Inr b" "needs_fallback env b"
    "fallback_answer env q st1 = (Inr a, st2)"
    "fst (save_question env q a st2) = Inl e"
  shows "fst (get_bot_response env req st) = \<lparr>status = 500, response_text = SERVER_ERROR\<rparr>"
proof -
  obtain st3 where "save_question env q a st2 = (Inl e, st3)"
    using assms(8) by (cases "save_question env q a st2") auto
  from save_failure[OF assms(1-7) this] show ?thesis by simp
qed

theorem C4_witness:
  "fst (fallback_answer readonly_env the_museum (empty_state\<lparr>calls := [Detect the_museum]\<rparr>))
     = Inr the_egyptian_museum
   \<and> fst (save_question readonly_env the_museum the_egyptian_museum
            (empty_state\<lparr>calls := [Detect the_museum, Wikipedia the_museum]\<rparr>))
     = Inl WriteError
   \<and> fst (get_bot_response readonly_env (Message (Some the_museum)) empty_state)
       = \<lparr>status = 500, response_text = SERVER_ERROR\<rparr>"
proof -
  let ?st1 = "empty_state\<lparr>calls := calls empty_state @ [Detect the_museum]\<rparr>"
  let ?st2 = "?st1\<lparr>calls := calls ?st1 @ [Wikipedia the_museum]\<rparr>"
  have ne: "the_museum \<noteq> []" "the_egyptian_museum \<noteq> []"
    by (simp_all add: the_museum_def the_egyptian_museum_def)
  have t: "translated_message readonly_env the_museum empty_state
      = (Inr (''ar'', the_museum), ?st1)"
    by (rule translated_message_arabic) (simp add: readonly_env_def example_env_def)
  have v: "is_valid_question readonly_env the_museum"
    using valid_the_museum
    by (simp add: is_valid_question_def isdigit_def readonly_env_def example_env_def)
  have d: "is_question_about_museum readonly_env the_museum"
    using museum_in_domain
    by (simp add: is_question_about_museum_def readonly_env_def example_env_def)
  have w: "working_answer readonly_env the_museum ?st1 = Inr None"
    by (rule working_answer_empty_state) (simp_all add: empty_state_def)
  have n: "needs_fallback readonly_env None" by (simp add: needs_fallback_def)
  have c: "fallback_answer readonly_env the_museum ?st1 = (Inr the_egyptian_museum, ?st2)"
    using museum_in_summary ne d
    by (simp add: fallback_answer_def cascade_def search_wikipedia_def readonly_env_def
        example_env_def called_def Let_def)
  have "\<not> file_opens readonly_env" by (simp add: readonly_env_def)
  then have sv: "fst (save_question readonly_env the_museum the_egyptian_museum ?st2)
      = Inl WriteError"
    using v summary_is_saved by (simp add: save_question_def Let_def)
  show ?thesis
    using C4_write_failure_is_server_error[OF message_the_museum ne(1) t v w n c sv] c sv
    by (simp add: empty_state_def)
qed

text \<open>
  C5, as stated: the learned lookup and the Intent Resolver reduce both sides of every
  comparison to one case, so the letter case of the question, of a stored key or of a
  pattern never changes the outcome. It does: the Intent Resolver finds the pattern
  "hello" for the question "hello" and nothing for "HELLO", and the learned lookup
  finds the key "hello" for the question "hello" and not the key "HELLO".
\<close>

theorem C5_counterexample:
  "ascii_lower (ustr ''HELLO'') = ascii_lower (ustr ''hello'')
   \<and> search_intents [hello] (ustr ''hello'') = Inr (Some (ustr ''hi''), Some (ustr ''greeting''))
   \<and> search_intents [hello] (ustr ''HELLO'') = Inr (None, None)
   \<and> fuzzy_match_question example_env (ustr ''hello'') [(ustr ''hello'', ustr ''hi'')]
       = Some (ustr ''hi'')
   \<and> fuzzy_match_question example_env (ustr ''hello'') [(ustr ''HELLO'', ustr ''hi'')] = None"
  by (simp only: HELLO_lower hello_lower search_intents_hello search_intents_HELLO lookup_hello
      lookup_hello_upper_key simp_thms)

text \<open>
  C5, amended: the learned lookup lower-cases the question before it compares, so two
  questions with the same lower-case form get the same result from the learned store.
\<close>

theorem C5_learned_lookup_lowers_question:
  assumes "str_lower env q = str_lower env q'"
  shows "search_local_questions env q st = search_local_questions env q' st"
  using assms by (simp add: search_local_questions_def fuzzy_match_question_def)

theorem C5_witness:
  "str_lower example_env (ustr ''HELLO'') = str_lower example_env (ustr ''hello'')
   \<and> search_local_questions example_env (ustr ''HELLO'') learned_state
       = search_local_questions example_env (ustr ''hello'') learned_state
   \<and> search_local_questions example_env (ustr ''hello'') learned_state = Some (ustr ''hi'')"
proof -
  have l: "str_lower example_env (ustr ''HELLO'') = str_lower example_env (ustr ''hello'')"
    by (simp add: example_env_def HELLO_lower hello_lower)
  have "search_local_questions example_env (ustr ''hello'') learned_state = Some (ustr ''hi'')"
    using lookup_hello by (simp add: search_local_questions_def learned_state_def empty_state_def)
  then show ?thesis
    using C5_learned_lookup_lowers_question[OF l, of learned_state] l by simp
qed

text \<open>
  C6. If the question, once in Arabic, has at most two characters or consists of digits
  only, the request adds nothing to the learned store and overwrites nothing in it:
  the dictionary in memory and the file are as before.
\<close>

theorem C6_invalid_question_not_saved:
  assumes "user_message req = Inr m" "m \<noteq> []"
    "translated_message env m st = (Inr (lang, q), st1)"
    "length q \<le> 2 \<or> isdigit env q"
  shows "questions_data (snd (get_bot_response env req st)) = questions_data st
       \<and> questions_file (snd (get_bot_response env req st)) = questions_file st"
proof -
  have "\<not> is_valid_question env q" using assms(4) by (auto simp: is_valid_question_def)
  then have "get_bot_response env req st = (\<lparr>status = 200, response_text = UNCLEAR\<rparr>, st1)"
    using get_bot_response_try_question[OF assms(1-3)] by (simp add: get_bot_response_def)
  moreover obtain cs where "st1 = st\<lparr>calls := cs\<rparr>"
    using translated_message_calls[OF assms(3)] by blast
  ultimately show ?thesis by simp
qed

theorem C6_witness:
  "user_message (Message (Some (ustr ''no''))) = Inr (ustr ''no'')
   \<and> translated_message english_env (ustr ''no'') learned_state
       = (Inr (''en'', [1604, 1575]),
          learned_state\<lparr>calls := [Detect (ustr ''no''), Translate ''auto'' ''ar'' (ustr ''no'')]\<rparr>)
   \<and> questions_data (snd (get_bot_response english_env (Message (Some (ustr ''no''))) learned_state))
       = [(ustr ''hello'', ustr ''hi'')]
   \<and> questions_file (snd (get_bot_response english_env (Message (Some (ustr ''no''))) learned_state))
       = Json []"
proof -
  let ?st1 = "learned_state\<lparr>calls := calls learned_state
                 @ [Detect (ustr ''no''), Translate ''auto'' ''ar'' (ustr ''no'')]\<rparr>"
  have ne: "ustr ''no'' \<noteq> []" by (simp add: ustr_def)
  have t: "translated_message english_env (ustr ''no'') learned_state
      = (Inr (''en'', [1604, 1575]), ?st1)"
    by (rule translated_message_foreign) (simp_all add: english_env_def example_env_def)
  have s: "length [1604, 1575 :: nat] \<le> 2 \<or> isdigit english_env [1604, 1575]" by simp
  show ?thesis
    using C6_invalid_question_not_saved[OF message_no ne t s] message_no t
    by (simp add: learned_state_def empty_state_def)
qed

text \<open>
  C7. For a question about the museum that reaches the cascade, if the encyclopedia gives
  no accepted result and the generative model gives an accepted one, the working answer
  of the fallback step is the model's text, reached after the calls to the encyclopedia
  and to the model only. The reply is built from that text: it is the text itself, or its
  translation into the language of the message, unless saving or translating raises;
  and the whole request makes no call to the web search.
\<close>

theorem C7_cascade_stops_at_gemini:
  assumes "user_message req = Inr m" "m \<noteq> []"
    "translated_message env m st = (Inr (lang, q), st1)"
    "is_valid_question env q"
    "working_answer env q st1 = Inr b" "needs_fallback env b"
    "is_question_about_museum env q"
    "fst (search_wikipedia env q st1) = Inr w" "\<not> truthy w"
    "fst (search_gemini env q (snd (search_wikipedia env q st1))) = Some g"
  shows "fallback_answer env q st1
           = (Inr g, st1\<lparr>calls := calls st1 @ [Wikipedia q, Gemini q]\<rparr>)
       \<and> fst (get_bot_response env req st)
           = (if fst (save_question env q g (st1\<lparr>calls := calls st1 @ [Wikipedia q, Gemini q]\<rparr>))
                  = Inr ()
              then (if lang = ''ar'' then \<lparr>status = 200, response_text = g\<rparr>
                    else (case translate env ''ar'' lang g of
                            None \<Rightarrow> \<lparr>status = 500, response_text = SERVER_ERROR\<rparr>
                          | Some t \<Rightarrow> \<lparr>status = 200, response_text = t\<rparr>))
              else \<lparr>status = 500, response_text = SERVER_ERROR\<rparr>)
       \<and> (\<exists>cs. calls (snd (get_bot_response env req st)) = calls st @ cs
                \<and> (\<forall>x. DuckDuckGo x \<notin> set cs))"
proof -
  let ?st2 = "st1\<lparr>calls := calls st1 @ [Wikipedia q, Gemini q]\<rparr>"
  have c: "fallback_answer env q st1 = (Inr g, ?st2)"
    using cascade_gemini[OF assms(8-10)] assms(7) by (simp add: fallback_answer_def)
  obtain cs1 where cs1: "calls st1 = calls st @ cs1" "\<forall>x. DuckDuckGo x \<notin> set cs1"
    using translated_message_calls[OF assms(3)] by (cases "lang = ''ar''") auto
  obtain r3 st3 where s: "save_question env q g ?st2 = (r3, st3)"
    by (cases "save_question env q g ?st2") auto
  obtain cs3 where cs3: "calls st3 = calls ?st2 @ cs3" "\<forall>x. DuckDuckGo x \<notin> set cs3"
    using save_question_calls[OF s] by blast
  obtain r4 st4 where f: "final_response env lang g st3 = (r4, st4)"
    by (cases "final_response env lang g st3") auto
  obtain cs4 where cs4: "calls st4 = calls st3 @ cs4" "\<forall>x. DuckDuckGo x \<notin> set cs4"
    using final_response_calls[OF f] by blast
  let ?reply = "if fst (save_question env q g ?st2) = Inr ()
              then (if lang = ''ar'' then \<lparr>status = 200, response_text = g\<rparr>
                    else (case translate env ''ar'' lang g of
                            None \<Rightarrow> \<lparr>status = 500, response_text = SERVER_ERROR\<rparr>
                          | Some t \<Rightarrow> \<lparr>status = 200, response_text = t\<rparr>))
              else \<lparr>status = 500, response_text = SERVER_ERROR\<rparr>"
  have both: "fst (get_bot_response env req st) = ?reply
      \<and> (snd (get_bot_response env req st) = st3 \<or> snd (get_bot_response env req st) = st4)"
  proof (cases r3)
    case (Inl e)
    then have "get_bot_response env req st
        = (\<lparr>status = 500, response_text = SERVER_ERROR\<rparr>, st3)"
      using save_failure[OF assms(1-6) c] s by simp
    then show ?thesis using s Inl by simp
  next
    case (Inr u)
    then have t: "get_bot_response_try env req st = (r4, st4)"
      using save_success[OF assms(1-6) c] s f by simp
    then have "snd (get_bot_response env req st) = st4"
      by (simp add: get_bot_response_def split: sum.splits)
    moreover have "fst (get_bot_response env req st) = ?reply"
      using t f s Inr
      by (auto simp: get_bot_response_def final_response_def Let_def
          split: sum.splits option.splits if_splits)
    ultimately show ?thesis by simp
  qed
  then have reply: "fst (get_bot_response env req st) = ?reply"
    and final: "snd (get_bot_response env req st) = st3 \<or> snd (get_bot_response env req st) = st4"
    by simp_all
  from final have "\<exists>cs. calls (snd (get_bot_response env req st)) = calls st @ cs
                \<and> (\<forall>x. DuckDuckGo x \<notin> set cs)"
  proof
    assume "snd (get_bot_response env req st) = st3"
    then have "calls (snd (get_bot_response env req st))
        = calls st @ (cs1 @ [Wikipedia q, Gemini q] @ cs3)"
      using cs1 cs3 by simp
    moreover have "\<forall>x. DuckDuckGo x \<notin> set (cs1 @ [Wikipedia q, Gemini q] @ cs3)"
      using cs1 cs3 by simp
    ultimately show ?thesis by blast
  next
    assume "snd (get_bot_response env req st) = st4"
    then have "calls (snd (get_bot_response env req st))
        = calls st @ (cs1 @ [Wikipedia q, Gemini q] @ cs3 @ cs4)"
      using cs1 cs3 cs4 by simp
    moreover have "\<forall>x. DuckDuckGo x \<notin> set (cs1 @ [Wikipedia q, Gemini q] @ cs3 @ cs4)"
      using cs1 cs3 cs4 by simp
    ultimately show ?thesis by blast
  qed
  then show ?thesis using c reply by simp
qed

theorem C7_witness:
  "is_question_about_museum gemini_env the_museum
   \<and> fst (search_wikipedia gemini_env the_museum (empty_state\<lparr>calls := [Detect the_museum]\<rparr>))
       = Inr None
   \<and> fallback_answer gemini_env the_museum (empty_state\<lparr>calls := [Detect the_museum]\<rparr>)
       = (Inr the_egyptian_museum,
          empty_state\<lparr>calls := [Detect the_museum, Wikipedia the_museum, Gemini the_museum]\<rparr>)
   \<and> fst (get_bot_response gemini_env (Message (Some the_museum)) empty_state)
       = \<lparr>status = 200, response_text = the_egyptian_museum\<rparr>
   \<and> (\<exists>cs. calls (snd (get_bot_response gemini_env (Message (Some the_museum)) empty_state))
              = cs \<and> (\<forall>x. DuckDuckGo x \<notin> set cs))"
proof -
  let ?st1 = "empty_state\<lparr>calls := calls empty_state @ [Detect the_museum]\<rparr>"
  let ?st2 = "?st1\<lparr>calls := calls ?st1 @ [Wikipedia the_museum, Gemini the_museum]\<rparr>"
  have ne: "the_museum \<noteq> []" "the_egyptian_museum \<noteq> []"
    by (simp_all add: the_museum_def the_egyptian_museum_def)
  have t: "translated_message gemini_env the_museum empty_state
      = (Inr (''ar'', the_museum), ?st1)"
    by (rule translated_message_arabic) (simp add: gemini_env_def example_env_def)
  have w: "working_answer gemini_env the_museum ?st1 = Inr None"
    by (rule working_answer_empty_state) (simp_all add: empty_state_def)
  have n: "needs_fallback gemini_env None" by (simp add: needs_fallback_def)
  have wiki: "fst (search_wikipedia gemini_env the_museum ?st1) = Inr None"
    by (simp add: search_wikipedia_def gemini_env_def example_env_def Let_def)
  have nt: "\<not> truthy None" by simp
  have gem: "fst (search_gemini gemini_env the_museum
                 (snd (search_wikipedia gemini_env the_museum ?st1))) = Some the_egyptian_museum"
    using museum_in_summary ne
    by (simp add: search_gemini_def gemini_env_def example_env_def Let_def)
  have "file_opens gemini_env" "file_accepts gemini_env"
    by (simp_all add: gemini_env_def example_env_def)
  then have sv: "fst (save_question gemini_env the_museum the_egyptian_museum ?st2) = Inr ()"
    using valid_the_museum_gemini summary_is_saved museum_summary_dumpable
    by (simp add: save_question_def called_def Let_def empty_state_def)
  show ?thesis
    using C7_cascade_stops_at_gemini
            [OF message_the_museum ne(1) t valid_the_museum_gemini w n museum_in_domain_gemini
                wiki nt gem]
      museum_in_domain_gemini wiki sv
    by (simp add: empty_state_def)
qed




text \<open>
  C9. The two early replies are returned in Arabic as they are, whatever the language of
  the message: the reply to an empty message comes before any call is made, and the reply
  to an unclear question comes after the detection and, for a message not in Arabic, the
  translation into Arabic; no translation back is called.
\<close>

theorem C9_early_replies_not_translated:
  "(user_message req = Inr [] \<longrightarrow>
      get_bot_response env req st = (\<lparr>status = 400, response_text = NO_MESSAGE\<rparr>, st))
   \<and> (user_message req = Inr m \<and> m \<noteq> []
        \<and> translated_message env m st = (Inr (lang, q), st1)
        \<and> \<not> is_valid_question env q \<longrightarrow>
      get_bot_response env req st = (\<lparr>status = 200, response_text = UNCLEAR\<rparr>, st1)
      \<and> calls st1 = calls st @ Detect m #
           (if lang = ''ar'' then [] else [Translate ''auto'' ''ar'' m]))"
proof (intro conjI impI)
  assume "user_message req = Inr []"
  then show "get_bot_response env req st = (\<lparr>status = 400, response_text = NO_MESSAGE\<rparr>, st)"
    by (simp add: get_bot_response_def get_bot_response_try_def)
next
  assume a: "user_message req = Inr m \<and> m \<noteq> []
        \<and> translated_message env m st = (Inr (lang, q), st1)
        \<and> \<not> is_valid_question env q"
  then show "get_bot_response env req st = (\<lparr>status = 200, response_text = UNCLEAR\<rparr>, st1)"
    using get_bot_response_try_question[of req m env st lang q st1]
    by (simp add: get_bot_response_def)
  from a have "st1 = st\<lparr>calls := calls st @ Detect m #
                    (if lang = ''ar'' then [] else [Translate ''auto'' ''ar'' m])\<rparr>"
    using translated_message_calls[of env m st lang q st1] by simp
  then have "calls st1 = calls (st\<lparr>calls := calls st @ Detect m #
                    (if lang = ''ar'' then [] else [Translate ''auto'' ''ar'' m])\<rparr>)"
    by simp
  then show "calls st1 = calls st @ Detect m #
           (if lang = ''ar'' then [] else [Translate ''auto'' ''ar'' m])"
    by simp
qed

theorem C9_witness:
  "get_bot_response english_env (Message (Some (ustr ''  ''))) empty_state
     = (\<lparr>status = 400, response_text = NO_MESSAGE\<rparr>, empty_state)
   \<and> \<not> is_valid_question english_env [1604, 1575]
   \<and> get_bot_response english_env (Message (Some (ustr ''no''))) empty_state
     = (\<lparr>status = 200, response_text = UNCLEAR\<rparr>,
        empty_state\<lparr>calls := [Detect (ustr ''no''), Translate ''auto'' ''ar'' (ustr ''no'')]\<rparr>)"
proof -
  let ?st1 = "empty_state\<lparr>calls := calls empty_state
                 @ [Detect (ustr ''no''), Translate ''auto'' ''ar'' (ustr ''no'')]\<rparr>"
  have ne: "ustr ''no'' \<noteq> []" by (simp add: ustr_def)
  have t: "translated_message english_env (ustr ''no'') empty_state
      = (Inr (''en'', [1604, 1575]), ?st1)"
    by (rule translated_message_foreign) (simp_all add: english_env_def example_env_def)
  have v: "\<not> is_valid_question english_env [1604, 1575]"
    by (simp add: is_valid_question_def)
  show ?thesis
    using C9_early_replies_not_translated
            [of "Message (Some (ustr ''  ''))" english_env empty_state]
      C9_early_replies_not_translated
            [of "Message (Some (ustr ''no''))" english_env empty_state "ustr ''no''" "''en''"
                "[1604, 1575]" ?st1]
      message_blank message_no ne t v
    by (simp add: empty_state_def)
qed

text \<open>
  C10. When the first intent with a pattern close to the question has no response,
  \<open>responses[0]\<close> raises \<open>IndexError\<close> in \<open>search_intents\<close>, and the request answers
  with the server error and status 500 instead of an answer of that intent.
\<close>

theorem C10_empty_responses_server_error:
  assumes "user_message req = Inr m" "m \<noteq> []"
    "translated_message env m st = (Inr (lang, q), st1)"
    "is_valid_question env q"
    "find (\<lambda>intent. get_close_matches q (patterns intent) (6 / 10) \<noteq> []) (intents_data st)
       = Some it"
    "responses it = []"
  shows "search_intents (intents_data st) q = Inl IndexError
       \<and> get_bot_response env req st = (\<lparr>status = 500, response_text = SERVER_ERROR\<rparr>, st1)"
proof -
  have raise: "search_intents (intents_data st) q = Inl IndexError"
    using assms(5,6) by (simp add: search_intents_first)
  obtain cs where "st1 = st\<lparr>calls := cs\<rparr>"
    using translated_message_calls[OF assms(3)] by blast
  then have "intents_data st1 = intents_data st" by simp
  then have "working_answer env q st1 = Inl IndexError"
    using raise by (simp add: working_answer_def)
  then have "answer env lang q st1 = (Inl IndexError, st1)"
    by (simp add: answer_def)
  then show ?thesis
    using raise assms(4) get_bot_response_try_question[OF assms(1-3)]
    by (simp add: get_bot_response_def)
qed

theorem C10_witness:
  "responses broken = []
   \<and> get_close_matches marhaba (patterns broken) (6 / 10) = [marhaba]
   \<and> search_intents (intents_data broken_state) marhaba = Inl IndexError
   \<and> get_bot_response example_env (Message (Some marhaba)) broken_state
       = (\<lparr>status = 500, response_text = SERVER_ERROR\<rparr>,
          broken_state\<lparr>calls := [Detect marhaba]\<rparr>)"
proof -
  let ?st1 = "broken_state\<lparr>calls := calls broken_state @ [Detect marhaba]\<rparr>"
  have ne: "marhaba \<noteq> []" by (simp add: marhaba_def)
  have t: "translated_message example_env marhaba broken_state = (Inr (''ar'', marhaba), ?st1)"
    by (rule translated_message_arabic) (simp add: example_env_def)
  have p: "get_close_matches marhaba (patterns broken) (6 / 10) = [marhaba]"
    using marhaba_close by (simp add: broken_def)
  then have f: "find (\<lambda>intent. get_close_matches marhaba (patterns intent) (6 / 10) \<noteq> [])
             (intents_data broken_state) = Some broken"
    by (simp add: broken_state_def)
  have r: "responses broken = []" by (simp add: broken_def)
  show ?thesis
    using C10_empty_responses_server_error[OF message_marhaba ne t valid_marhaba f r] r p
    by (simp add: broken_state_def empty_state_def)
qed

end
